theory Spec2Isabelle
  imports Main "HOL-Library.Sublist"
begin

section \<open>Python strings\<close>

text \<open>
  The exporter \<^verbatim>\<open>dnd-logseq-to-html.py\<close> works on Python \<^verbatim>\<open>str\<close> values. A \<^verbatim>\<open>str\<close> is
  modelled as a \<^typ>\<open>string\<close>, one \<^typ>\<open>char\<close> per code point, which covers the code points
  below 256 (ASCII and Latin-1). Whitespace, case mapping and the character classes of the
  regular expressions are the ones Python uses on that range.
\<close>

definition nl :: char where
  "nl = CHR 0x0A"

definition is_space :: "char \<Rightarrow> bool" where
  \<comment> \<open>\<^verbatim>\<open>str.isspace\<close> and the regular expression class \<^verbatim>\<open>\s\<close> on code points below 256.\<close>
  "is_space c =
     (let n = (of_char c :: nat)
      in (9 \<le> n \<and> n \<le> 13) \<or> (28 \<le> n \<and> n \<le> 32) \<or> n = 133 \<or> n = 160)"

definition strip :: "string \<Rightarrow> string" where
  \<comment> \<open>\<^verbatim>\<open>s.strip()\<close>\<close>
  "strip s = rev (dropWhile is_space (rev (dropWhile is_space s)))"

definition startswith :: "string \<Rightarrow> string \<Rightarrow> bool" where
  \<comment> \<open>\<^verbatim>\<open>s.startswith(p)\<close>\<close>
  "startswith s p = prefix p s"

fun contains :: "string \<Rightarrow> string \<Rightarrow> bool" where
  \<comment> \<open>\<^verbatim>\<open>needle in hay\<close> on strings\<close>
  "contains needle [] = (needle = [])"
| "contains needle (c # cs) = (prefix needle (c # cs) \<or> contains needle cs)"

fun split_nl :: "string \<Rightarrow> string list" where
  \<comment> \<open>\<^verbatim>\<open>s.split('\n')\<close>: never empty, one more piece than there are newlines\<close>
  "split_nl [] = [[]]"
| "split_nl (c # cs) =
     (if c = nl then [] # split_nl cs
      else (case split_nl cs of l # ls \<Rightarrow> (c # l) # ls | [] \<Rightarrow> [[c]]))"

fun join :: "string \<Rightarrow> string list \<Rightarrow> string" where
  \<comment> \<open>\<^verbatim>\<open>sep.join(xs)\<close>\<close>
  "join sep [] = []"
| "join sep [x] = x"
| "join sep (x # y # zs) = x @ sep @ join sep (y # zs)"

fun replace :: "string \<Rightarrow> string \<Rightarrow> string \<Rightarrow> string" where
  \<comment> \<open>\<^verbatim>\<open>s.replace(old, new)\<close> for a non-empty \<^verbatim>\<open>old\<close> (the source only passes
      \<^verbatim>\<open>'/'\<close>, \<^verbatim>\<open>'_-_'\<close>, \<^verbatim>\<open>'-'\<close> and \<^verbatim>\<open>'_'\<close>)\<close>
  "replace old new [] = []"
| "replace old new (c # cs) =
     (if old \<noteq> [] \<and> prefix old (c # cs)
      then new @ replace old new (drop (length old - 1) cs)
      else c # replace old new cs)"

definition char_range :: "char \<Rightarrow> char \<Rightarrow> char \<Rightarrow> bool" where
  \<comment> \<open>a range \<^verbatim>\<open>lo-hi\<close> of a character class, by code point\<close>
  "char_range lo hi c = ((of_char lo :: nat) \<le> of_char c \<and> (of_char c :: nat) \<le> of_char hi)"

definition is_az :: "char \<Rightarrow> bool" where
  "is_az = char_range CHR ''a'' CHR ''z''"

definition is_AZ :: "char \<Rightarrow> bool" where
  "is_AZ = char_range CHR ''A'' CHR ''Z''"

definition is_digit :: "char \<Rightarrow> bool" where
  "is_digit = char_range CHR ''0'' CHR ''9''"

definition lower_char :: "char \<Rightarrow> char" where
  \<comment> \<open>the upper-case letters below 256 are \<^verbatim>\<open>A-Z\<close> and the code points 0xC0 to 0xDE but
      0xD7; the lower-case letter is 32 code points up\<close>
  "lower_char c =
     (if is_AZ c \<or> (char_range (CHR 0xC0) (CHR 0xDE) c \<and> c \<noteq> CHR 0xD7)
      then char_of (of_char c + (32::nat)) else c)"

definition lower :: "string \<Rightarrow> string" where
  \<comment> \<open>\<^verbatim>\<open>s.lower()\<close>\<close>
  "lower s = map lower_char s"

section \<open>Regular expression substitution\<close>

text \<open>
  \<^verbatim>\<open>re.sub(pattern, repl, text)\<close> scans the text from the left, replaces the leftmost match,
  and goes on behind it. A pattern is given by its matcher: applied to the text that starts
  at the current position it returns the replacement and the number of characters the match
  covers, or \<open>None\<close>. No pattern of the source matches the empty string, so a matcher
  returns a positive length.
\<close>

type_synonym matcher = "string \<Rightarrow> (string \<times> nat) option"

fun re_sub :: "matcher \<Rightarrow> string \<Rightarrow> string" where
  "re_sub m [] = []"
| "re_sub m (c # cs) =
     (case m (c # cs) of
        Some (r, n) \<Rightarrow> r @ re_sub m (drop (n - 1) cs)
      | None \<Rightarrow> c # re_sub m cs)"

section \<open>Filenames\<close>

definition is_safe_char :: "char \<Rightarrow> bool" where
  \<comment> \<open>the class \<^verbatim>\<open>[a-zA-Z0-9\-_]\<close>\<close>
  "is_safe_char c = (is_az c \<or> is_AZ c \<or> is_digit c \<or> c = CHR ''-'' \<or> c = CHR ''_'')"

definition sanitize_filename :: "string \<Rightarrow> string" where
  \<comment> \<open>\<^verbatim>\<open>title.replace('/', '-')\<close>, then \<^verbatim>\<open>re.sub(r'[^a-zA-Z0-9\-_]', '_', ...)\<close>, then
      \<^verbatim>\<open>.lower()\<close>\<close>
  "sanitize_filename title =
     lower (map (\<lambda>c. if is_safe_char c then c else CHR ''_'') (replace ''/'' ''-'' title))"

definition is_filename_char :: "char \<Rightarrow> bool" where
  \<comment> \<open>the class \<^verbatim>\<open>[a-z0-9\-_]\<close> of the pattern \<^verbatim>\<open>^[a-z0-9\-_]*$\<close>\<close>
  "is_filename_char c = (is_az c \<or> is_digit c \<or> c = CHR ''-'' \<or> c = CHR ''_'')"

section \<open>The link resolver\<close>

record page_info =
  pi_uuid :: string
  pi_title :: string
  pi_has_public_children :: bool

text \<open>
  The public page set is a Python \<^verbatim>\<open>dict\<close> from title to page information: an association
  list in insertion order.
\<close>

type_synonym public_pages = "(string \<times> page_info) list"

definition link_match :: "(string \<Rightarrow> string) \<Rightarrow> matcher" where
  \<comment> \<open>the pattern \<^verbatim>\<open>\[\[([^\]]+)\]\]\<close>: two opening brackets, the longest run of characters
      other than a closing bracket (at least one), two closing brackets\<close>
  "link_match repl s =
     (if prefix ''[['' s
      then (let body = takeWhile (\<lambda>c. c \<noteq> CHR '']'') (drop 2 s)
            in if body \<noteq> [] \<and> prefix '']]'' (drop (2 + length body) s)
               then Some (repl body, length body + 4)
               else None)
      else None)"

definition link_repl :: "public_pages \<Rightarrow> string \<Rightarrow> string" where
  \<open>link_repl public_pages page_name =
     (if page_name \<in> fst ` set public_pages
      then ''<a href="'' @ sanitize_filename page_name @ ''.html">'' @ page_name @ ''</a>''
      else ''<span class="non-public-link">'' @ page_name @ ''</span>'')\<close>

definition resolve_links_for_html :: "string \<Rightarrow> public_pages \<Rightarrow> string" where
  "resolve_links_for_html content public_pages = re_sub (link_match (link_repl public_pages)) content"

text \<open>
  A text written as a sequence of pieces, each some text followed by one link
  \<^verbatim>\<open>[[name]]\<close>, and a tail; and the same text with every link replaced by the anchor or
  the span the specification asks for.
\<close>

definition text_with_links :: "(string \<times> string) list \<Rightarrow> string \<Rightarrow> string" where
  "text_with_links segs tail =
     concat (map (\<lambda>(pre, name). pre @ ''[['' @ name @ '']]'') segs) @ tail"

definition anchor_or_span :: "public_pages \<Rightarrow> string \<Rightarrow> string" where
  \<open>anchor_or_span public_pages name =
     (if name \<in> fst ` set public_pages
      then ''<a href="'' @ sanitize_filename name @ ''.html">'' @ name @ ''</a>''
      else ''<span class="non-public-link">'' @ name @ ''</span>'')\<close>

definition text_with_anchors :: "public_pages \<Rightarrow> (string \<times> string) list \<Rightarrow> string \<Rightarrow> string" where
  "text_with_anchors public_pages segs tail =
     concat (map (\<lambda>(pre, name). pre @ anchor_or_span public_pages name) segs) @ tail"

fun no_link_start :: "string \<Rightarrow> bool" where
  \<comment> \<open>the text has no two opening brackets in a row\<close>
  "no_link_start [] = True"
| "no_link_start (c # cs) = (\<not> prefix ''[['' (c # cs) \<and> no_link_start cs)"

section \<open>The public page set\<close>

text \<open>
  A page record of the Logseq API as the exporter reads it. \<open>p_name\<close> is
  \<^verbatim>\<open>page.get("name")\<close> (\<open>None\<close> when the key is absent or null), \<open>p_title\<close> is
  \<^verbatim>\<open>page.get("title", "")\<close>, \<open>p_uuid\<close> is \<^verbatim>\<open>page.get("uuid")\<close> and \<open>p_public\<close> is
  \<^verbatim>\<open>get_page_property(page, "public")\<close>. The empty dictionary is the record with no
  name, no uuid, no property and the empty title.
\<close>

datatype prop_value = PBool bool | PStr string | PNum int

record page =
  p_name :: "string option"
  p_title :: string
  p_uuid :: "string option"
  p_public :: "prop_value option"

definition is_page_public :: "page \<Rightarrow> bool" where
  \<comment> \<open>\<^verbatim>\<open>public_prop in [True, "true", "children"]\<close>; in Python \<^verbatim>\<open>1 == True\<close>\<close>
  "is_page_public p =
     (case p_public p of
        None \<Rightarrow> False
      | Some (PBool b) \<Rightarrow> b
      | Some (PStr s) \<Rightarrow> s = ''true'' \<or> s = ''children''
      | Some (PNum n) \<Rightarrow> n = 1)"

definition is_public_children :: "page \<Rightarrow> bool" where
  \<comment> \<open>\<^verbatim>\<open>public_prop == "children"\<close>\<close>
  "is_public_children p = (p_public p = Some (PStr ''children''))"

definition page_title :: "page \<Rightarrow> string" where
  \<comment> \<open>\<^verbatim>\<open>(page.get("name") or page.get("title", "")).strip()\<close>\<close>
  "page_title p =
     strip (case p_name p of
              Some n \<Rightarrow> if n \<noteq> [] then n else p_title p
            | None \<Rightarrow> p_title p)"

text \<open>
  \<^verbatim>\<open>api_call("logseq.Editor.getAllPages", [])\<close> gives the list of all pages, or \<open>None\<close>
  when the call fails. The page set does not change during a run, so every call of a run
  gives the same answer: the argument \<open>all_pages\<close>.
\<close>

definition get_nested_pages :: "page list option \<Rightarrow> string \<Rightarrow> page list" where
  "get_nested_pages all_pages page_name =
     (case all_pages of
        None \<Rightarrow> []
      | Some pages \<Rightarrow>
          if pages = [] then []
          else filter (\<lambda>p. startswith (page_title p) (strip page_name @ ''/'')) pages)"

fun dict_set :: "'k \<Rightarrow> 'v \<Rightarrow> ('k \<times> 'v) list \<Rightarrow> ('k \<times> 'v) list" where
  \<comment> \<open>\<^verbatim>\<open>d[k] = v\<close>\<close>
  "dict_set k v [] = [(k, v)]"
| "dict_set k v ((k', v') # d) =
     (if k = k' then (k, v) # d else (k', v') # dict_set k v d)"

definition add_page :: "page \<Rightarrow> public_pages \<times> string set \<Rightarrow> public_pages \<times> string set" where
  \<comment> \<open>the inner function of \<^verbatim>\<open>get_public_pages\<close>; the state is \<^verbatim>\<open>public_pages\<close> and
      \<^verbatim>\<open>processed_pages\<close>\<close>
  "add_page p st =
     (let title = page_title p
      in case p_uuid p of
           None \<Rightarrow> st
         | Some uuid \<Rightarrow>
             if uuid \<noteq> [] \<and> title \<noteq> [] \<and> title \<notin> snd st
             then (dict_set title
                     \<lparr>pi_uuid = uuid, pi_title = title,
                      pi_has_public_children = is_public_children p\<rparr> (fst st),
                   insert title (snd st))
             else st)"

fun add_pages :: "page list \<Rightarrow> public_pages \<times> string set \<Rightarrow> public_pages \<times> string set" where
  \<comment> \<open>\<^verbatim>\<open>for nested_page in nested_pages: add_page(nested_page)\<close>\<close>
  "add_pages [] st = st"
| "add_pages (p # ps) st = add_pages ps (add_page p st)"

fun first_pass ::
  "page list option \<Rightarrow> page list \<Rightarrow> public_pages \<times> string set \<Rightarrow> public_pages \<times> string set"
where
  \<comment> \<open>the loop \<^verbatim>\<open>for page in pages\<close> of \<^verbatim>\<open>get_public_pages\<close>\<close>
  "first_pass all_pages [] st = st"
| "first_pass all_pages (p # ps) st =
     first_pass all_pages ps
       (if is_page_public p
        then (if is_public_children p
              then add_pages (get_nested_pages all_pages (page_title p)) (add_page p st)
              else add_page p st)
        else st)"

definition get_public_pages :: "page list option \<Rightarrow> public_pages" where
  "get_public_pages all_pages =
     (case all_pages of
        None \<Rightarrow> []
      | Some pages \<Rightarrow> if pages = [] then [] else fst (first_pass all_pages pages ([], {})))"

text \<open>Example pages and the notions the proofs about the page set use.\<close>

definition trip_page :: page where
  "trip_page = \<lparr>p_name = Some ''Trip'', p_title = [], p_uuid = Some ''6512a0'',
                 p_public = Some (PStr ''children'')\<rparr>"

definition day_page :: page where
  \<comment> \<open>a page record without an identifier\<close>
  "day_page = \<lparr>p_name = Some ''Trip/Day1'', p_title = [], p_uuid = None, p_public = None\<rparr>"

definition pages_inv :: "public_pages \<times> string set \<Rightarrow> bool" where
  "pages_inv st = (fst ` set (fst st) = snd st \<and> distinct (map fst (fst st)))"

definition pass_step :: "page list option \<Rightarrow> page \<Rightarrow> public_pages \<times> string set \<Rightarrow> public_pages \<times> string set" where
  "pass_step all_pages p st =
       (if is_page_public p
        then (if is_public_children p
              then add_pages (get_nested_pages all_pages (page_title p)) (add_page p st)
              else add_page p st)
        else st)"

definition day_page_with_id :: page where
  "day_page_with_id = day_page\<lparr>p_uuid := Some ''6512a1''\<rparr>"

section \<open>The environment\<close>

text \<open>
  What the exporter takes from outside: the file system (through \<^verbatim>\<open>os\<close> and
  \<^verbatim>\<open>shutil\<close>), library functions and Python's salted string hash. They are the fields of
  an environment; every statement below holds for every environment unless it names one.
\<close>

record env =
  e_home :: string
    \<comment> \<open>the home directory \<^verbatim>\<open>os.path.expanduser\<close> puts for a leading tilde\<close>
  e_exists :: "string \<Rightarrow> bool"
    \<comment> \<open>\<^verbatim>\<open>os.path.exists\<close>\<close>
  e_listdir :: "string \<Rightarrow> string list option"
    \<comment> \<open>\<^verbatim>\<open>os.listdir\<close>: the entries of a directory, \<open>None\<close> when the call raises\<close>
  e_unquote :: "string \<Rightarrow> string"
    \<comment> \<open>\<^verbatim>\<open>urllib.parse.unquote\<close>\<close>
  e_optimize :: "string \<Rightarrow> bool"
    \<comment> \<open>\<^verbatim>\<open>optimize_image(src)\<close> returned data (it returns \<^verbatim>\<open>None\<close> when it fails)\<close>
  e_write :: "string \<Rightarrow> bool"
    \<comment> \<open>opening the destination and writing the optimized data to it succeeded\<close>
  e_copy2 :: "string \<Rightarrow> string \<Rightarrow> bool"
    \<comment> \<open>\<^verbatim>\<open>shutil.copy2(src, dest)\<close> succeeded; it raises otherwise\<close>
  e_hash :: "string \<Rightarrow> int"
    \<comment> \<open>Python's \<^verbatim>\<open>hash\<close> on strings\<close>
  e_markdown :: "string \<Rightarrow> string"
    \<comment> \<open>the renderer \<^verbatim>\<open>mistune.create_markdown(...)\<close> returns\<close>

text \<open>
  The exceptions: \<open>OSError\<close> from the file system, \<open>NameError\<close> from the use of a name
  that is bound nowhere.
\<close>

datatype error = OSError | NameError

fun show_nat :: "nat \<Rightarrow> string" where
  \<comment> \<open>a natural number in decimal, as an f-string prints it\<close>
  "show_nat n =
     (if n < 10 then [''0123456789'' ! n]
      else show_nat (n div 10) @ [''0123456789'' ! (n mod 10)])"

declare show_nat.simps [simp del]

definition hash32 :: "env \<Rightarrow> string \<Rightarrow> string" where
  \<comment> \<open>\<^verbatim>\<open>hash(s) & 0xFFFFFFFF\<close>, printed\<close>
  "hash32 env s = show_nat (nat (e_hash env s mod 4294967296))"

section \<open>The property formatter\<close>

definition prop_match :: "string \<Rightarrow> (string \<times> string) option" where
  \<comment> \<open>\<^verbatim>\<open>re.match(r'^([a-zA-Z][a-zA-Z0-9-_]*)::(.+?)$', s)\<close> for a stripped line \<open>s\<close>: a letter,
      the longest run of key characters, two colons and a non-empty rest without a newline;
      the class \<^verbatim>\<open>[a-zA-Z0-9-_]\<close> is \<^const>\<open>is_safe_char\<close>\<close>
  "prop_match s =
     (case s of
        [] \<Rightarrow> None
      | c # cs \<Rightarrow>
          if is_az c \<or> is_AZ c
          then (let key = c # takeWhile is_safe_char cs;
                    rest = dropWhile is_safe_char cs;
                    v = drop 2 rest
                in if prefix ''::'' rest \<and> v \<noteq> [] \<and> nl \<notin> set v
                   then Some (key, v) else None)
          else None)"

definition pair_html :: "env \<Rightarrow> string \<times> string \<Rightarrow> string" where
  \<open>pair_html env kv =
     ''    <div class="property-pair" role="listitem">'' @ [nl] @
     ''    <dt id="prop-'' @ hash32 env (fst kv) @ ''">'' @ fst kv @ ''</dt>'' @ [nl] @
     ''    <dd aria-labelledby="prop-'' @ hash32 env (fst kv) @ ''">'' @ snd kv @ ''</dd>'' @ [nl] @
     ''    </div>'' @ [nl]\<close>

definition section_html :: "env \<Rightarrow> (string \<times> string) list \<Rightarrow> string" where
  \<open>section_html env property_lines =
     ''<section id="props-'' @ hash32 env (concat (map (\<lambda>(k, v). k @ v) property_lines)) @
       ''" class="page-properties" aria-label="Page properties">'' @ [nl] @
     ''<h2 class="visually-hidden">Page Properties</h2>'' @ [nl] @
     ''<dl role="list">'' @ [nl] @
     concat (map (pair_html env) property_lines) @
     ''</dl>'' @ [nl] @
     ''</section>'' @ [nl]\<close>

definition flush_properties ::
  "env \<Rightarrow> string list \<times> (string \<times> string) list \<Rightarrow> string list \<times> (string \<times> string) list"
where
  \<comment> \<open>\<^verbatim>\<open>if property_lines: lines.append(dl_html); property_lines = []\<close>\<close>
  "flush_properties env st =
     (if snd st \<noteq> [] then (fst st @ [section_html env (snd st)], []) else st)"

definition wrap_line :: "string \<Rightarrow> string list" where
  \<comment> \<open>what a line that is no property adds to \<^verbatim>\<open>lines\<close>\<close>
  "wrap_line line =
     (if strip line \<noteq> []
      then [if startswith (strip line) ''<'' then line else ''<p>'' @ line @ ''</p>'']
      else [])"

fun fp_loop ::
  "env \<Rightarrow> string list \<Rightarrow> string list \<times> (string \<times> string) list
   \<Rightarrow> string list \<times> (string \<times> string) list"
where
  \<comment> \<open>the loop \<^verbatim>\<open>for line in content.split('\n')\<close>; the state is \<^verbatim>\<open>lines\<close> and
      \<^verbatim>\<open>property_lines\<close>\<close>
  "fp_loop env [] st = st"
| "fp_loop env (line # rest) st =
     (case prop_match (strip line) of
        Some (key, v) \<Rightarrow>
          fp_loop env rest
            (fst st,
             if key \<noteq> ''id'' \<and> key \<noteq> ''public''
             then snd st @ [(strip key, strip v)] else snd st)
      | None \<Rightarrow>
          fp_loop env rest
            (fst (flush_properties env st) @ wrap_line line, snd (flush_properties env st)))"

definition format_properties :: "env \<Rightarrow> string \<Rightarrow> string" where
  "format_properties env content =
     join [nl] (fst (flush_properties env (fp_loop env (split_nl content) ([], []))))"

section \<open>Metadata and Logseq syntax\<close>

definition is_hex :: "char \<Rightarrow> bool" where
  \<comment> \<open>the class \<^verbatim>\<open>[a-f0-9]\<close>\<close>
  "is_hex c = (char_range CHR ''a'' CHR ''f'' c \<or> is_digit c)"

definition is_hexdash :: "char \<Rightarrow> bool" where
  \<comment> \<open>the class \<^verbatim>\<open>[a-f0-9-]\<close>\<close>
  "is_hexdash c = (is_hex c \<or> c = CHR ''-'')"

definition id_match :: matcher where
  \<comment> \<open>\<^verbatim>\<open>\s*id::\s*[a-f0-9-]+\<close>\<close>
  "id_match s =
     (let s1 = dropWhile is_space s
      in if prefix ''id::'' s1
         then (let s2 = dropWhile is_space (drop 4 s1);
                   body = takeWhile is_hexdash s2
               in if body \<noteq> [] then Some ([], length s - length s2 + length body) else None)
         else None)"

fun hex_groups :: "nat list \<Rightarrow> string \<Rightarrow> bool" where
  \<comment> \<open>groups of hexadecimal digits of the given lengths, a dash between two groups\<close>
  "hex_groups [] s = (s = [])"
| "hex_groups [n] s = (length s = n \<and> list_all is_hex s)"
| "hex_groups (n # m # ns) s =
     (length (take n s) = n \<and> list_all is_hex (take n s) \<and> prefix ''-'' (drop n s)
      \<and> hex_groups (m # ns) (drop (Suc n) s))"

definition uuid_match :: matcher where
  \<comment> \<open>\<^verbatim>\<open>\s*[a-f0-9]{8}-[a-f0-9]{4}-[a-f0-9]{4}-[a-f0-9]{4}-[a-f0-9]{12}\<close>: 36 characters\<close>
  "uuid_match s =
     (let s1 = dropWhile is_space s
      in if hex_groups [8, 4, 4, 4, 12] (take 36 s1)
         then Some ([], length s - length s1 + 36) else None)"

definition public_match :: matcher where
  \<comment> \<open>\<^verbatim>\<open>\s*public::\s*(true|children)\<close>\<close>
  "public_match s =
     (let s1 = dropWhile is_space s
      in if prefix ''public::'' s1
         then (let s2 = dropWhile is_space (drop 8 s1)
               in if prefix ''true'' s2 then Some ([], length s - length s2 + 4)
                  else if prefix ''children'' s2 then Some ([], length s - length s2 + 8)
                  else None)
         else None)"

definition clean_logseq_metadata :: "string \<Rightarrow> string" where
  "clean_logseq_metadata content = re_sub public_match (re_sub uuid_match (re_sub id_match content))"

definition tag_match :: matcher where
  \<comment> \<open>\<^verbatim>\<open>#\[\[([^\]]+)\]\]\<close>, replaced by \<^verbatim>\<open>[\1](\1)\<close>\<close>
  "tag_match s =
     (if prefix ''#[['' s
      then (let body = takeWhile (\<lambda>c. c \<noteq> CHR '']'') (drop 3 s)
            in if body \<noteq> [] \<and> prefix '']]'' (drop (3 + length body) s)
               then Some (''['' @ body @ '']('' @ body @ '')'', length body + 5)
               else None)
      else None)"

definition blockref_match :: matcher where
  \<comment> \<open>\<^verbatim>\<open>\(\(([a-f0-9-]+)\)\)\<close>, replaced by the empty string\<close>
  "blockref_match s =
     (if prefix ''(('' s
      then (let body = takeWhile is_hexdash (drop 2 s)
            in if body \<noteq> [] \<and> prefix ''))'' (drop (2 + length body) s)
               then Some ([], length body + 4)
               else None)
      else None)"

definition sub_line_start :: "string \<Rightarrow> string \<Rightarrow> string \<Rightarrow> string" where
  \<comment> \<open>\<^verbatim>\<open>re.sub('^' + p, r, content, flags=re.MULTILINE)\<close> for a literal \<open>p\<close> without a
      newline: with the flag, \<^verbatim>\<open>^\<close> matches at the start of the text and behind every
      newline, that is at the start of every piece of \<^verbatim>\<open>content.split('\n')\<close>\<close>
  "sub_line_start p r content =
     join [nl] (map (\<lambda>l. if prefix p l then r @ drop (length p) l else l) (split_nl content))"

definition sub_text_start :: "string \<Rightarrow> string \<Rightarrow> string \<Rightarrow> string" where
  \<comment> \<open>\<^verbatim>\<open>re.sub('^' + p, r, content)\<close> for a literal \<open>p\<close>: without the flag, \<^verbatim>\<open>^\<close> matches at the
      start of the text only\<close>
  "sub_text_start p r content = (if prefix p content then r @ drop (length p) content else content)"

definition task_checkboxes :: "string \<Rightarrow> string" where
  \<comment> \<open>the five substitutions of \<^verbatim>\<open>preprocess_markdown\<close>, in the source's order\<close>
  "task_checkboxes content =
     sub_line_start ''LATER '' ''- [ ] ''
       (sub_line_start ''NOW '' ''- [ ] ''
         (sub_line_start ''TODO '' ''- [ ] ''
           (sub_line_start ''DOING '' ''- [ ] ''
             (sub_line_start ''DONE '' ''- [x] '' content))))"

definition preprocess_markdown :: "env \<Rightarrow> string \<Rightarrow> string" where
  "preprocess_markdown env content =
     (if content = [] then []
      else clean_logseq_metadata
             (format_properties env
               (task_checkboxes (re_sub blockref_match (re_sub tag_match content)))))"

definition env0 :: env where
  \<comment> \<open>an environment for examples: an empty file system, every string hashed to 0\<close>
  "env0 = \<lparr>e_home = ''/home/job'', e_exists = (\<lambda>_. False), e_listdir = (\<lambda>_. None),
           e_unquote = (\<lambda>s. s), e_optimize = (\<lambda>_. False), e_write = (\<lambda>_. True),
           e_copy2 = (\<lambda>_ _. True), e_hash = (\<lambda>_. 0), e_markdown = (\<lambda>s. s)\<rparr>"

section \<open>The asset resolver\<close>

definition path_join :: "string \<Rightarrow> string \<Rightarrow> string" where
  \<comment> \<open>\<^verbatim>\<open>os.path.join(a, b)\<close> (POSIX)\<close>
  "path_join a b =
     (if prefix ''/'' b then b
      else if a = [] \<or> last a = CHR ''/'' then a @ b
      else a @ ''/'' @ b)"

definition expanduser :: "env \<Rightarrow> string \<Rightarrow> string" where
  \<comment> \<open>\<^verbatim>\<open>os.path.expanduser\<close> for the paths the exporter passes: a leading tilde alone or
      before a slash becomes the home directory without its trailing slashes; any other
      path is returned as it is\<close>
  "expanduser env p =
     (if p = ''~'' \<or> prefix ''~/'' p
      then (let r = rev (dropWhile (\<lambda>c. c = CHR ''/'') (rev (e_home env))) @ tl p
            in if r = [] then ''/'' else r)
      else p)"

definition basename :: "string \<Rightarrow> string" where
  \<comment> \<open>\<^verbatim>\<open>os.path.basename\<close>: what follows the last slash\<close>
  "basename p = rev (takeWhile (\<lambda>c. c \<noteq> CHR ''/'') (rev p))"

definition splitext :: "string \<Rightarrow> string \<times> string" where
  \<comment> \<open>\<^verbatim>\<open>os.path.splitext\<close> on a name without a slash: the extension starts at the last dot,
      unless only dots come before it\<close>
  "splitext name =
     (let r = rev name
      in case dropWhile (\<lambda>c. c \<noteq> CHR ''.'') r of
           [] \<Rightarrow> (name, [])
         | d # stem_rev \<Rightarrow>
             if list_ex (\<lambda>c. c \<noteq> CHR ''.'') stem_rev
             then (rev stem_rev, d # rev (takeWhile (\<lambda>c. c \<noteq> CHR ''.'') r))
             else (name, []))"

fun dedup_from :: "'a list \<Rightarrow> 'a list \<Rightarrow> 'a list" where
  "dedup_from seen [] = []"
| "dedup_from seen (x # xs) =
     (if x \<in> set seen then dedup_from seen xs else x # dedup_from (x # seen) xs)"

definition dedup :: "'a list \<Rightarrow> 'a list" where
  \<comment> \<open>\<^verbatim>\<open>list(dict.fromkeys(xs))\<close>: the first occurrence of each element, in order\<close>
  "dedup xs = dedup_from [] xs"

definition spellings :: "string \<Rightarrow> string list" where
  "spellings s =
     dedup [s, replace ''_-_'' ''-'' s, replace ''-'' ''_'' s, replace ''_'' ''-'' s]"

definition variations :: "string \<Rightarrow> string list" where
  "variations filename = spellings filename"

definition base_variations :: "string \<Rightarrow> string list" where
  "base_variations filename = spellings (fst (splitext (basename filename)))"

definition LOGSEQ_ASSETS_PATH :: string where
  "LOGSEQ_ASSETS_PATH = ''/Users/job/Library/CloudStorage/SynologyDrive-on-demand/database/assets''"

definition possible_locations :: "env \<Rightarrow> string list" where
  "possible_locations env =
     [LOGSEQ_ASSETS_PATH,
      ''assets'',
      ''~/Documents/logseq/assets'',
      expanduser env ''~/logseq/assets'',
      expanduser env ''~/Library/CloudStorage/SynologyDrive-on-demand/database/assets'']"

definition exact_match :: "env \<Rightarrow> string \<Rightarrow> string \<Rightarrow> string option" where
  \<comment> \<open>the first variant that exists in the location\<close>
  "exact_match env location filename =
     find (\<lambda>variant. e_exists env (path_join location variant)) (variations filename)"

definition partial_match :: "string list \<Rightarrow> string \<Rightarrow> string option" where
  \<comment> \<open>the first listed file whose lower-cased name contains a lower-cased base variant\<close>
  "partial_match files filename =
     find (\<lambda>file. list_ex (\<lambda>base_variant. contains (lower base_variant) (lower file))
                     (base_variations filename)) files"

fun find_in :: "env \<Rightarrow> string \<Rightarrow> string list \<Rightarrow> error + string option" where
  \<comment> \<open>the loop \<^verbatim>\<open>for location in possible_locations\<close> of \<^verbatim>\<open>find_asset\<close>; \<open>Inr None\<close> is the
      return value \<^verbatim>\<open>None\<close>, \<open>Inl\<close> an exception\<close>
  "find_in env filename [] = Inr None"
| "find_in env filename (loc # locs) =
     (if e_exists env (expanduser env loc)
      then (case exact_match env (expanduser env loc) filename of
              Some variant \<Rightarrow> Inr (Some (path_join (expanduser env loc) variant))
            | None \<Rightarrow>
                (case e_listdir env (expanduser env loc) of
                   None \<Rightarrow> Inl OSError
                 | Some files \<Rightarrow>
                     (case partial_match files filename of
                        Some file \<Rightarrow> Inr (Some (path_join (expanduser env loc) file))
                      | None \<Rightarrow> find_in env filename locs)))
      else find_in env filename locs)"

definition find_asset :: "env \<Rightarrow> string \<Rightarrow> error + string option" where
  "find_asset env filename = find_in env filename (possible_locations env)"

definition ASSETS_DIR :: string where
  "ASSETS_DIR = path_join ''html-output'' ''assets''"

definition is_asset_char :: "char \<Rightarrow> bool" where
  \<comment> \<open>the class \<^verbatim>\<open>[a-zA-Z0-9._-]\<close>\<close>
  "is_asset_char c =
     (is_az c \<or> is_AZ c \<or> is_digit c \<or> c = CHR ''.'' \<or> c = CHR ''_'' \<or> c = CHR ''-'')"

definition copy_asset :: "env \<Rightarrow> string \<Rightarrow> error + string option" where
  \<comment> \<open>for an image whose optimization gave data, \<^verbatim>\<open>safe_filename\<close> is rebound to the
      \<^verbatim>\<open>.jpg\<close> name before the data is written, and stays so when the writing fails and
      the function falls back to \<^verbatim>\<open>shutil.copy2\<close>\<close>
  "copy_asset env src_path =
     (if \<not> e_exists env src_path then Inr None
      else (let filename = basename src_path;
                ext = lower (snd (splitext filename));
                optimized = (ext \<in> {''.jpg'', ''.jpeg'', ''.png'', ''.webp''}
                             \<and> e_optimize env src_path);
                safe_filename =
                  (if optimized
                   then fst (splitext (map (\<lambda>c. if is_asset_char c then c else CHR ''_'') filename))
                        @ ''.jpg''
                   else map (\<lambda>c. if is_asset_char c then c else CHR ''_'') filename)
            in if optimized \<and> e_write env (path_join ASSETS_DIR safe_filename)
               then Inr (Some (''assets/'' @ safe_filename))
               else if e_copy2 env src_path (path_join ASSETS_DIR safe_filename)
               then Inr (Some (''assets/'' @ safe_filename))
               else Inl OSError))"

fun re_sub_e ::
  "(string \<Rightarrow> (string \<times> nat) option) \<Rightarrow> (string \<Rightarrow> error + string) \<Rightarrow> string \<Rightarrow> error + string"
where
  \<comment> \<open>\<^verbatim>\<open>re.sub\<close> with a replacement function that may raise: the matcher gives the group and
      the length of the match, the function is called on the group of each match from left
      to right, and the first exception ends the substitution\<close>
  "re_sub_e m f [] = Inr []"
| "re_sub_e m f (c # cs) =
     (case m (c # cs) of
        Some (g, n) \<Rightarrow>
          (case f g of
             Inl e \<Rightarrow> Inl e
           | Inr r \<Rightarrow>
               (case re_sub_e m f (drop (n - 1) cs) of
                  Inl e \<Rightarrow> Inl e
                | Inr t \<Rightarrow> Inr (r @ t)))
      | None \<Rightarrow>
          (case re_sub_e m f cs of
             Inl e \<Rightarrow> Inl e
           | Inr t \<Rightarrow> Inr (c # t)))"

definition dotdot_match :: matcher where
  \<comment> \<open>\<^verbatim>\<open>\.\./+\<close>, replaced by the empty string\<close>
  "dotdot_match s =
     (if prefix ''../'' s
      then Some ([], 3 + length (takeWhile (\<lambda>c. c = CHR ''/'') (drop 3 s)))
      else None)"

definition clean_img_path :: "env \<Rightarrow> string \<Rightarrow> string" where
  \<comment> \<open>\<^verbatim>\<open>unquote\<close>, then \<^verbatim>\<open>re.sub(r'\.\./+', '', ...)\<close>, then
      \<^verbatim>\<open>re.sub(r'^(assets/|img/)', '', ...)\<close>\<close>
  "clean_img_path env grp =
     (let p = re_sub dotdot_match (e_unquote env grp)
      in if prefix ''assets/'' p then drop 7 p
         else if prefix ''img/'' p then drop 4 p
         else p)"

definition not_found_text :: "string \<Rightarrow> string" where
  "not_found_text img_path = ''[Image not found: '' @ img_path @ '']''"

definition img_repl :: "env \<Rightarrow> string \<Rightarrow> error + string" where
  \<comment> \<open>the inner function \<^verbatim>\<open>repl\<close> of \<^verbatim>\<open>process_image_links\<close>, on the group of the match\<close>
  \<open>img_repl env grp =
     (let img_path = clean_img_path env grp
      in case find_asset env img_path of
           Inl e \<Rightarrow> Inl e
         | Inr None \<Rightarrow> Inr (not_found_text img_path)
         | Inr (Some asset_path) \<Rightarrow>
             if asset_path = [] then Inr (not_found_text img_path)
             else (case copy_asset env asset_path of
                     Inl e \<Rightarrow> Inl e
                   | Inr None \<Rightarrow> Inr (not_found_text img_path)
                   | Inr (Some new_path) \<Rightarrow>
                       if new_path = [] then Inr (not_found_text img_path)
                       else Inr (''<img src="'' @ new_path @ ''" alt=""/>'')))\<close>

definition md_image_match :: "string \<Rightarrow> (string \<times> nat) option" where
  \<comment> \<open>\<^verbatim>\<open>!\[(?:[^\]]*)\]\(([^)]+)\)\<close>: the group is the path\<close>
  "md_image_match s =
     (if prefix ''!['' s
      then (let alt = takeWhile (\<lambda>c. c \<noteq> CHR '']'') (drop 2 s);
                s1 = drop (2 + length alt) s
            in if prefix '']('' s1
               then (let path = takeWhile (\<lambda>c. c \<noteq> CHR '')'') (drop 2 s1)
                     in if path \<noteq> [] \<and> prefix '')'' (drop (2 + length path) s1)
                        then Some (path, length alt + length path + 5)
                        else None)
               else None)
      else None)"

definition html_image_at :: "string \<Rightarrow> nat \<Rightarrow> (string \<times> nat) option" where
  \<comment> \<open>\<^verbatim>\<open><img[^>]+src="([^"]+)"[^>]*>\<close> with \<^verbatim>\<open>[^>]+\<close> taking exactly \<open>k\<close> characters\<close>
  \<open>html_image_at s k =
     (let t = drop (4 + k) s
      in if prefix ''src="'' t
         then (let body = takeWhile (\<lambda>c. c \<noteq> CHR ''"'') (drop 5 t);
                   u = drop (5 + length body) t
               in if body \<noteq> [] \<and> prefix ''"'' u
                  then (let rest = takeWhile (\<lambda>c. c \<noteq> CHR ''>'') (drop 1 u)
                        in if prefix ''>'' (drop (1 + length rest) u)
                           then Some (body, k + length body + length rest + 11)
                           else None)
                  else None)
         else None)\<close>

fun html_image_try :: "string \<Rightarrow> nat \<Rightarrow> (string \<times> nat) option" where
  \<comment> \<open>backtracking of the greedy \<^verbatim>\<open>[^>]+\<close>: the longest run first, down to one character\<close>
  "html_image_try s 0 = None"
| "html_image_try s (Suc k) =
     (case html_image_at s (Suc k) of
        Some r \<Rightarrow> Some r
      | None \<Rightarrow> html_image_try s k)"

definition html_image_match :: "string \<Rightarrow> (string \<times> nat) option" where
  "html_image_match s =
     (if prefix ''<img'' s
      then html_image_try s (length (takeWhile (\<lambda>c. c \<noteq> CHR ''>'') (drop 4 s)))
      else None)"

definition process_image_links :: "env \<Rightarrow> string \<Rightarrow> error + string" where
  "process_image_links env content =
     (case re_sub_e md_image_match (img_repl env) content of
        Inl e \<Rightarrow> Inl e
      | Inr content1 \<Rightarrow> re_sub_e html_image_match (img_repl env) content1)"

section \<open>The block renderers\<close>

text \<open>
  A block of the page tree as the renderers read it: \<open>NoBlock\<close> is a value that is false in
  Python (\<^verbatim>\<open>None\<close> or the empty dictionary), \<open>Block content children\<close> a dictionary with
  \<^verbatim>\<open>block.get("content", "")\<close> and \<^verbatim>\<open>block.get("children", [])\<close>.
\<close>

datatype block = NoBlock | Block string "block list"

fun lazy_until :: "string \<Rightarrow> string \<Rightarrow> (string \<times> nat) option" where
  \<comment> \<open>\<^verbatim>\<open>(.+?)\<close> followed by a literal: the shortest non-empty run of characters other than a
      newline after which the literal stands; the result is the run and the length of run
      and literal\<close>
  "lazy_until close [] = None"
| "lazy_until close (c # cs) =
     (if c = nl then None
      else if prefix close cs then Some ([c], Suc (length close))
      else (case lazy_until close cs of
              Some (body, n) \<Rightarrow> Some (c # body, Suc n)
            | None \<Rightarrow> None))"

definition span_match :: "string \<Rightarrow> string \<Rightarrow> string \<Rightarrow> matcher" where
  \<comment> \<open>a pattern \<^verbatim>\<open>D(.+?)D\<close> for a literal delimiter, replaced by \<^verbatim>\<open><tag>\1</tag>\<close>\<close>
  "span_match delim tag_open tag_close s =
     (if prefix delim s
      then (case lazy_until delim (drop (length delim) s) of
              Some (body, n) \<Rightarrow> Some (tag_open @ body @ tag_close, length delim + n)
            | None \<Rightarrow> None)
      else None)"

definition url_match :: matcher where
  \<comment> \<open>\<^verbatim>\<open>(https?://\S+)\<close>, replaced by \<^verbatim>\<open><a href="\1">\1</a>\<close>\<close>
  \<open>url_match s =
     (let scheme = (if prefix ''https://'' s then ''https://''
                    else if prefix ''http://'' s then ''http://'' else []);
          rest = takeWhile (\<lambda>c. \<not> is_space c) (drop (length scheme) s)
      in if scheme \<noteq> [] \<and> rest \<noteq> []
         then Some (''<a href="'' @ scheme @ rest @ ''">'' @ scheme @ rest @ ''</a>'',
                    length scheme + length rest)
         else None)\<close>

definition backtick :: char where
  "backtick = CHR 0x60"

definition code_match :: matcher where
  \<comment> \<open>a backtick, \<^verbatim>\<open>([^`]+)\<close>, a backtick; replaced by \<^verbatim>\<open><code>\1</code>\<close>\<close>
  "code_match s =
     (case s of
        [] \<Rightarrow> None
      | c # cs \<Rightarrow>
          (let body = takeWhile (\<lambda>d. d \<noteq> backtick) cs
           in if c = backtick \<and> body \<noteq> [] \<and> prefix [backtick] (drop (length body) cs)
              then Some (''<code>'' @ body @ ''</code>'', length body + 2)
              else None))"

definition process_line :: "env \<Rightarrow> public_pages \<Rightarrow> string \<Rightarrow> error + string" where
  \<comment> \<open>the body of the loop over the lines in \<^verbatim>\<open>process_block\<close>, for a stripped non-empty
      line: the paragraph appended to \<^verbatim>\<open>processed_lines\<close>\<close>
  "process_line env public_pages line =
     (case process_image_links env
             (re_sub code_match
               (re_sub url_match
                 (resolve_links_for_html
                   (re_sub (span_match ''=='' ''<mark>'' ''</mark>'')
                     (re_sub (span_match ''~~'' ''<del>'' ''</del>'')
                       (re_sub (span_match ''*'' ''<em>'' ''</em>'')
                         (re_sub (span_match ''**'' ''<strong>'' ''</strong>'') line))))
                   public_pages))) of
        Inl e \<Rightarrow> Inl e
      | Inr l \<Rightarrow> Inr (''<p>'' @ l @ ''</p>''))"

fun process_lines :: "env \<Rightarrow> public_pages \<Rightarrow> string list \<Rightarrow> error + string list" where
  \<comment> \<open>\<^verbatim>\<open>for line in lines\<close>\<close>
  "process_lines env public_pages [] = Inr []"
| "process_lines env public_pages (line # rest) =
     (if strip line = [] then process_lines env public_pages rest
      else (case process_line env public_pages (strip line) of
              Inl e \<Rightarrow> Inl e
            | Inr p \<Rightarrow>
                (case process_lines env public_pages rest of
                   Inl e \<Rightarrow> Inl e
                 | Inr ps \<Rightarrow> Inr (p # ps))))"

text \<open>
  The glyphs \<^verbatim>\<open>process_block\<close> puts for the task markers are code points above 255; they
  are written here as their UTF-8 bytes.
\<close>

definition task_glyphs :: "string \<Rightarrow> string" where
  \<comment> \<open>the five substitutions of \<^verbatim>\<open>process_block\<close>, in the source's order; they carry no
      \<^verbatim>\<open>re.MULTILINE\<close>\<close>
  "task_glyphs content =
     sub_text_start ''LATER '' [CHR 0xE2, CHR 0x8F, CHR 0xB0, CHR '' '']
       (sub_text_start ''NOW '' [CHR 0xE2, CHR 0x96, CHR 0xB6, CHR 0xEF, CHR 0xB8, CHR 0x8F, CHR '' '']
         (sub_text_start ''TODO '' [CHR 0xE2, CHR 0x98, CHR 0x90, CHR '' '']
           (sub_text_start ''DOING '' [CHR 0xE2, CHR 0x8F, CHR 0xB3, CHR '' '']
             (sub_text_start ''DONE '' [CHR 0xE2, CHR 0x98, CHR 0x91, CHR 0xEF, CHR 0xB8, CHR 0x8F, CHR '' ''] content))))"

fun process_block :: "env \<Rightarrow> public_pages \<Rightarrow> block \<Rightarrow> error + string"
  and process_children :: "env \<Rightarrow> public_pages \<Rightarrow> block list \<Rightarrow> error + string"
where
  \<comment> \<open>the inner function of \<^verbatim>\<open>export_page_to_html\<close>, and its loop
      \<^verbatim>\<open>for child in children: html += f"<li>{process_block(child)}</li>"\<close>\<close>
  "process_block env public_pages NoBlock = Inr []"
| "process_block env public_pages (Block content children) =
     (if strip content = [] then Inr []
      else (case process_lines env public_pages
                   (split_nl (task_glyphs (clean_logseq_metadata (strip content)))) of
              Inl e \<Rightarrow> Inl e
            | Inr processed_lines \<Rightarrow>
                if children = []
                then Inr (''<div class='' @ [CHR 0x27] @ ''block'' @ [CHR 0x27] @ ''>'' @
                          join [nl] processed_lines @ ''</div>'')
                else (case process_children env public_pages children of
                        Inl e \<Rightarrow> Inl e
                      | Inr items \<Rightarrow>
                          Inr (''<div class='' @ [CHR 0x27] @ ''block'' @ [CHR 0x27] @ ''>'' @
                               join [nl] processed_lines @ ''<ul>'' @ items @ ''</ul>'' @
                               ''</div>''))))"
| "process_children env public_pages [] = Inr []"
| "process_children env public_pages (child # rest) =
     (case process_block env public_pages child of
        Inl e \<Rightarrow> Inl e
      | Inr h \<Rightarrow>
          (case process_children env public_pages rest of
             Inl e \<Rightarrow> Inl e
           | Inr hs \<Rightarrow> Inr (''<li>'' @ h @ ''</li>'' @ hs)))"

fun block_tree_to_html :: "env \<Rightarrow> public_pages \<Rightarrow> block \<Rightarrow> nat \<Rightarrow> error + string"
  and children_to_html :: "env \<Rightarrow> public_pages \<Rightarrow> block list \<Rightarrow> nat \<Rightarrow> error + string list"
where
  \<comment> \<open>\<^verbatim>\<open>block_tree_to_html(block, title, public_pages, indent)\<close> (the title is not used), and
      the list \<^verbatim>\<open>[block_tree_to_html(child, ..., indent + 1) for child in children if child]\<close>\<close>
  "block_tree_to_html env public_pages NoBlock indent = Inr []"
| "block_tree_to_html env public_pages (Block content children) indent =
     (if strip content = [] \<and> children = [] then Inr []
      else (case process_image_links env
                   (resolve_links_for_html (preprocess_markdown env (strip content)) public_pages) of
              Inl e \<Rightarrow> Inl e
            | Inr content3 \<Rightarrow>
                (case children_to_html env public_pages children (Suc indent) of
                   Inl e \<Rightarrow> Inl e
                 | Inr child_htmls \<Rightarrow>
                     Inr ((if indent > 0 then ''<li>'' else []) @
                          (if content3 \<noteq> [] then e_markdown env content3 else []) @
                          (if join [nl] child_htmls \<noteq> []
                           then [nl] @ ''<ul>'' @ [nl] @ join [nl] child_htmls @ [nl] @ ''</ul>''
                           else []) @
                          (if indent > 0 then ''</li>'' else [])))))"
| "children_to_html env public_pages [] indent = Inr []"
| "children_to_html env public_pages (child # rest) indent =
     (if child = NoBlock then children_to_html env public_pages rest indent
      else (case block_tree_to_html env public_pages child indent of
              Inl e \<Rightarrow> Inl e
            | Inr h \<Rightarrow>
                (case children_to_html env public_pages rest indent of
                   Inl e \<Rightarrow> Inl e
                 | Inr hs \<Rightarrow> Inr (h # hs))))"

section \<open>Embed resolution\<close>

text \<open>
  \<^verbatim>\<open>resolve_embeds_in_block\<close> writes to the block dictionaries it visits and follows their
  \<^verbatim>\<open>children\<close> lists, which in Python are references and may lead back to a block already
  on the path. The blocks live in a store: a list of block objects, an object's address
  being its index. \<open>hb_uuid\<close> is \<^verbatim>\<open>block.get("uuid")\<close>, \<open>hb_content\<close> is
  \<^verbatim>\<open>block.get("content", "")\<close>, and \<open>hb_children\<close> is the list of addresses under the key
  \<^verbatim>\<open>"children"\<close>, \<open>None\<close> when the key is absent.
\<close>

record hblock =
  hb_uuid :: "string option"
  hb_content :: string
  hb_children :: "nat list option"

type_synonym store = "hblock list"

definition has_id :: "hblock \<Rightarrow> bool" where
  \<comment> \<open>\<^verbatim>\<open>if block_uuid:\<close>\<close>
  "has_id b = (case hb_uuid b of None \<Rightarrow> False | Some u \<Rightarrow> u \<noteq> [])"

definition visit :: "hblock \<Rightarrow> string set \<Rightarrow> string set" where
  \<comment> \<open>\<^verbatim>\<open>processed.add(block_uuid)\<close> for a block with an identifier\<close>
  "visit b processed = (if has_id b then insert (the (hb_uuid b)) processed else processed)"

definition resolve_embeds :: "string \<Rightarrow> string set \<Rightarrow> public_pages \<Rightarrow> error + string" where
  \<comment> \<open>the call \<^verbatim>\<open>resolve_embeds(content, processed, public_pages)\<close>: the source file
      neither defines nor imports the name \<^verbatim>\<open>resolve_embeds\<close>, so the call raises
      \<^verbatim>\<open>NameError\<close>\<close>
  "resolve_embeds content processed public_pages = Inl NameError"

definition new_content :: "env \<Rightarrow> public_pages \<Rightarrow> string \<Rightarrow> string set \<Rightarrow> error + string" where
  \<comment> \<open>the three assignments to \<^verbatim>\<open>block["content"]\<close>, in the source's order\<close>
  "new_content env public_pages content processed =
     (case resolve_embeds content processed public_pages of
        Inl e \<Rightarrow> Inl e
      | Inr content1 \<Rightarrow>
          process_image_links env (resolve_links_for_html content1 public_pages))"

text \<open>
  The function and its loop over the children call each other; they are one function on a
  sum: \<open>Inl a\<close> is the call on the block at address \<open>a\<close>, \<open>Inr as\<close> the rest of the loop
  \<^verbatim>\<open>for child in block["children"]\<close>. The result is \<open>None\<close> when the call does not return,
  \<open>Some (Inl e)\<close> when it raises and \<open>Some (Inr (store, processed))\<close> when it returns. An
  address outside the store cannot occur in Python and leaves the state as it is.
\<close>

partial_function (option) resolve_walk ::
  "env \<Rightarrow> public_pages \<Rightarrow> nat + nat list \<Rightarrow> store \<times> string set
   \<Rightarrow> (error + store \<times> string set) option"
where
  "resolve_walk env public_pages w st =
     (case w of
        Inl a \<Rightarrow>
          if length (fst st) \<le> a then Some (Inr st)
          else if has_id (fst st ! a) \<and> the (hb_uuid (fst st ! a)) \<in> snd st then Some (Inr st)
          else (case new_content env public_pages (hb_content (fst st ! a))
                       (visit (fst st ! a) (snd st)) of
                  Inl e \<Rightarrow> Some (Inl e)
                | Inr c \<Rightarrow>
                    (case hb_children (fst st ! a) of
                       None \<Rightarrow>
                         Some (Inr ((fst st)[a := (fst st ! a)\<lparr>hb_content := c\<rparr>],
                                    visit (fst st ! a) (snd st)))
                     | Some children \<Rightarrow>
                         resolve_walk env public_pages (Inr children)
                           ((fst st)[a := (fst st ! a)\<lparr>hb_content := c\<rparr>],
                            visit (fst st ! a) (snd st))))
      | Inr [] \<Rightarrow> Some (Inr st)
      | Inr (child # rest) \<Rightarrow>
          Option.bind (resolve_walk env public_pages (Inl child) st)
            (\<lambda>r. case r of
                   Inl e \<Rightarrow> Some (Inl e)
                 | Inr st1 \<Rightarrow> resolve_walk env public_pages (Inr rest) st1))"

definition resolve_embeds_in_block ::
  "env \<Rightarrow> public_pages \<Rightarrow> nat \<Rightarrow> store \<Rightarrow> string set option
   \<Rightarrow> (error + store \<times> string set) option"
where
  \<comment> \<open>the call \<^verbatim>\<open>resolve_embeds_in_block(block, processed, public_pages)\<close> on the block at
      address \<open>a\<close>; \<^verbatim>\<open>processed\<close> may be \<^verbatim>\<open>None\<close>, which stands for the empty set\<close>
  "resolve_embeds_in_block env public_pages a store processed =
     resolve_walk env public_pages (Inl a)
       (store, case processed of None \<Rightarrow> {} | Some s \<Rightarrow> s)"

definition cycle_store :: store where
  \<comment> \<open>two blocks with identifiers, each the child of the other\<close>
  "cycle_store =
     [\<lparr>hb_uuid = Some ''b1'', hb_content = ''one'', hb_children = Some [1]\<rparr>,
      \<lparr>hb_uuid = Some ''b2'', hb_content = ''two'', hb_children = Some [0]\<rparr>]"

definition self_loop_store :: store where
  \<comment> \<open>one block without an identifier that is its own child\<close>
  "self_loop_store = [\<lparr>hb_uuid = None, hb_content = [], hb_children = Some [0]\<rparr>]"


text \<open>Example blocks.\<close>

definition untitled_parent :: block where
  \<comment> \<open>a block with whitespace for text and one child\<close>
  "untitled_parent = Block ''  '' [Block ''child'' []]"

definition note_block :: block where
  \<comment> \<open>a block of two lines, the second starting with a task marker\<close>
  "note_block = Block (''note'' @ [nl] @ ''TODO buy milk'') []"

text \<open>What a location holds for a requested name, stated on the file system itself.\<close>

definition has_exact :: "env \<Rightarrow> string \<Rightarrow> string \<Rightarrow> bool" where
  \<comment> \<open>some spelling variant of the name exists in the location\<close>
  "has_exact env location filename =
     (\<exists>variant \<in> set (variations filename). e_exists env (path_join location variant))"

definition has_partial :: "string list \<Rightarrow> string \<Rightarrow> bool" where
  \<comment> \<open>some listed file contains some base variant, case-insensitively\<close>
  "has_partial files filename =
     (\<exists>file \<in> set files. \<exists>base_variant \<in> set (base_variations filename).
        contains (lower base_variant) (lower file))"

definition nothing_at :: "env \<Rightarrow> string \<Rightarrow> string \<Rightarrow> bool" where
  \<comment> \<open>the location does not exist, or it can be listed and holds neither an exact nor a
      substring match\<close>
  "nothing_at env filename loc =
     (e_exists env (expanduser env loc) \<longrightarrow>
        \<not> has_exact env (expanduser env loc) filename
        \<and> (\<exists>files. e_listdir env (expanduser env loc) = Some files
                    \<and> \<not> has_partial files filename))"

definition env_two_dirs :: env where
  \<comment> \<open>the configured assets directory holds \<^verbatim>\<open>photo_backup.png\<close>, the local \<^verbatim>\<open>assets\<close>
      directory holds \<^verbatim>\<open>photo.png\<close>\<close>
  "env_two_dirs = env0
     \<lparr>e_exists := (\<lambda>p. p = LOGSEQ_ASSETS_PATH \<or> p = LOGSEQ_ASSETS_PATH @ ''/photo_backup.png''
                        \<or> p = ''assets'' \<or> p = ''assets/photo.png''),
      e_listdir := (\<lambda>p. if p = LOGSEQ_ASSETS_PATH then Some [''photo_backup.png'']
                         else if p = ''assets'' then Some [''photo.png''] else None)\<rparr>"

definition env_local :: env where
  \<comment> \<open>only the local \<^verbatim>\<open>assets\<close> directory exists; it lists \<^verbatim>\<open>photo_old.png\<close> before
      \<^verbatim>\<open>photo.png\<close>\<close>
  "env_local = env0
     \<lparr>e_exists := (\<lambda>p. p = ''assets'' \<or> p = ''assets/photo.png'' \<or> p = ''assets/photo_old.png''),
      e_listdir := (\<lambda>p. if p = ''assets'' then Some [''photo_old.png'', ''photo.png''] else None)\<rparr>"

definition env_album :: env where
  \<comment> \<open>the local \<^verbatim>\<open>assets\<close> directory holds one entry, the directory \<^verbatim>\<open>photo_album\<close>, and
      \<^verbatim>\<open>shutil.copy2\<close> raises on a directory\<close>
  "env_album = env0
     \<lparr>e_exists := (\<lambda>p. p = ''assets'' \<or> p = ''assets/photo_album''),
      e_listdir := (\<lambda>p. if p = ''assets'' then Some [''photo_album''] else None),
      e_copy2 := (\<lambda>src dest. src \<noteq> ''assets/photo_album'')\<rparr>"

definition env_assets_file :: env where
  \<comment> \<open>\<^verbatim>\<open>assets\<close> exists but is a regular file: \<^verbatim>\<open>os.listdir\<close> raises on it\<close>
  "env_assets_file = env0\<lparr>e_exists := (\<lambda>p. p = ''assets''), e_listdir := (\<lambda>p. None)\<rparr>"



section \<open>Theorems\<close>

subsection \<open>Filename sanitization\<close>

lemmas char_classes = char_range_def is_az_def is_AZ_def is_digit_def

lemma lower_char_safe: "is_safe_char c \<Longrightarrow> is_filename_char (lower_char c)"
  by (auto simp: char_classes is_safe_char_def is_filename_char_def lower_char_def)

lemma lower_char_filename: "is_filename_char c \<Longrightarrow> lower_char c = c"
  by (auto simp: char_classes is_filename_char_def lower_char_def)

lemma filename_char_safe: "is_filename_char c \<Longrightarrow> is_safe_char c"
  by (auto simp: is_filename_char_def is_safe_char_def)

lemma filename_char_no_slash: "is_filename_char c \<Longrightarrow> c \<noteq> CHR ''/''"
  by (auto simp: char_classes is_filename_char_def)

lemma sanitize_chars: "list_all is_filename_char (sanitize_filename x)"
proof -
  have "is_filename_char (lower_char (if is_safe_char c then c else CHR ''_''))" for c
  proof (cases "is_safe_char c")
    case True
    then show ?thesis by (simp add: lower_char_safe)
  next
    case False
    have "is_safe_char CHR ''_''" by (simp add: is_safe_char_def)
    then show ?thesis using False by (simp add: lower_char_safe)
  qed
  then show ?thesis
    by (simp add: sanitize_filename_def lower_def list_all_iff)
qed

lemma replace_slash_id: "list_all is_filename_char s \<Longrightarrow> replace ''/'' ''-'' s = s"
  by (induction s) (auto dest: filename_char_no_slash)

lemma sanitize_fixed: "list_all is_filename_char s \<Longrightarrow> sanitize_filename s = s"
  by (simp add: sanitize_filename_def replace_slash_id lower_def list_all_iff
      filename_char_safe lower_char_filename map_idI)

text \<open>
  C3. \<^verbatim>\<open>sanitize_filename\<close> is a function of the title alone, applying it twice gives what
  applying it once gives, and every character of its result is in \<^verbatim>\<open>[a-z0-9\-_]\<close>, which
  is what matching \<^verbatim>\<open>^[a-z0-9\-_]*$\<close> means for a string without a newline.
\<close>

theorem sanitize_filename_idempotent:
  "sanitize_filename (sanitize_filename x) = sanitize_filename x
   \<and> list_all is_filename_char (sanitize_filename x)"
  using sanitize_chars sanitize_fixed by blast

theorem sanitize_filename_idempotent_witness:
  "sanitize_filename (sanitize_filename ''Trip/Day 1'') = sanitize_filename ''Trip/Day 1''
   \<and> list_all is_filename_char (sanitize_filename ''Trip/Day 1'')
   \<and> sanitize_filename ''Trip/Day 1'' = ''trip-day_1''"
proof -
  have "sanitize_filename ''Trip/Day 1'' = ''trip-day_1''"
    by (simp add: sanitize_filename_def lower_def lower_char_def is_safe_char_def
        char_classes char_of_eq_iff)
  then show ?thesis
    using sanitize_filename_idempotent[of "''Trip/Day 1''"] by simp
qed

subsection \<open>Link resolution\<close>

lemma re_sub_skip:
  assumes "\<And>suf. suf \<noteq> [] \<Longrightarrow> suffix suf pre \<Longrightarrow> m (suf @ rest) = None"
  shows "re_sub m (pre @ rest) = pre @ re_sub m rest"
  using assms
proof (induction pre)
  case Nil
  then show ?case by simp
next
  case (Cons c pre)
  have "m (c # pre @ rest) = None"
    using Cons.prems[of "c # pre"] by simp
  moreover have "re_sub m (pre @ rest) = pre @ re_sub m rest"
    by (rule Cons.IH) (simp add: Cons.prems suffix_Cons)
  ultimately show ?case by simp
qed

lemma link_match_none: "\<not> prefix ''[['' s \<Longrightarrow> link_match r s = None"
  by (simp add: link_match_def)

lemma link_match_hit:
  assumes "name \<noteq> []" "CHR '']'' \<notin> set name"
  shows "link_match r (''[['' @ name @ '']]'' @ rest) = Some (r name, length name + 4)"
proof -
  have "takeWhile (\<lambda>c. c \<noteq> CHR '']'') (name @ '']]'' @ rest) = name"
    using assms(2) by (auto simp: takeWhile_append2 takeWhile_tail)
  then show ?thesis using assms(1) by (simp add: link_match_def)
qed

lemma no_link_start_suffix:
  "no_link_start (pre @ ''['') \<Longrightarrow> suf \<noteq> [] \<Longrightarrow> suffix suf pre \<Longrightarrow> \<not> prefix ''[['' (suf @ ''[['' @ rest)"
proof (induction pre)
  case Nil
  then show ?case by simp
next
  case (Cons c pre)
  show ?case
  proof (cases "suf = c # pre")
    case True
    then show ?thesis using Cons.prems(1) by (cases pre) auto
  next
    case False
    then have "suffix suf pre" using Cons.prems(3) by (simp add: suffix_Cons)
    then show ?thesis using Cons by simp
  qed
qed

lemma re_sub_link_piece:
  assumes "no_link_start (pre @ ''['')" "name \<noteq> []" "CHR '']'' \<notin> set name"
  shows "re_sub (link_match r) (pre @ ''[['' @ name @ '']]'' @ rest) = pre @ r name @ re_sub (link_match r) rest"
proof -
  have "re_sub (link_match r) (pre @ (''[['' @ name @ '']]'' @ rest))
      = pre @ re_sub (link_match r) (''[['' @ name @ '']]'' @ rest)"
    by (rule re_sub_skip) (use assms(1) no_link_start_suffix link_match_none in blast)
  moreover have "re_sub (link_match r) (''[['' @ name @ '']]'' @ rest) = r name @ re_sub (link_match r) rest"
    using link_match_hit[OF assms(2,3), of r rest] by (simp add: drop_Cons')
  ultimately show ?thesis by simp
qed

lemma re_sub_no_link: "no_link_start s \<Longrightarrow> re_sub (link_match r) s = s"
  by (induction s) (simp_all add: link_match_none)

text \<open>
  C1. Every link \<^verbatim>\<open>[[name]]\<close> of a text (a non-empty name without a closing bracket, the
  text before it holding no other link start) is replaced: by an anchor to
  \<^verbatim>\<open>sanitize_filename(name) + '.html'\<close> whose visible text is the name when the name is a
  key of the public page set, and by a \<^verbatim>\<open>non-public-link\<close> span with the same visible text
  otherwise. Everything between the links is kept. The witness is the example of the
  specification, \<^verbatim>\<open>see [[Foo]] and [[Bar]]\<close> with only \<^verbatim>\<open>Foo\<close> public.
\<close>

theorem resolve_links_every_occurrence:
  assumes "\<forall>(pre, name) \<in> set segs. no_link_start (pre @ ''['') \<and> name \<noteq> [] \<and> CHR '']'' \<notin> set name"
    and "no_link_start tail"
  shows "resolve_links_for_html (text_with_links segs tail) public_pages = text_with_anchors public_pages segs tail"
  using assms(1)
proof (induction segs)
  case Nil
  then show ?case
    by (simp add: resolve_links_for_html_def text_with_links_def text_with_anchors_def
        re_sub_no_link assms(2))
next
  case (Cons seg segs)
  obtain pre name where seg: "seg = (pre, name)" by (cases seg)
  have p: "no_link_start (pre @ ''['')" "name \<noteq> []" "CHR '']'' \<notin> set name"
    using Cons.prems seg by auto
  have ih: "re_sub (link_match (link_repl public_pages)) (text_with_links segs tail)
      = text_with_anchors public_pages segs tail"
    using Cons by (simp add: resolve_links_for_html_def)
  have "text_with_links (seg # segs) tail = pre @ ''[['' @ name @ '']]'' @ text_with_links segs tail"
    by (simp add: text_with_links_def seg)
  then have "re_sub (link_match (link_repl public_pages)) (text_with_links (seg # segs) tail)
      = pre @ link_repl public_pages name @ text_with_anchors public_pages segs tail"
    using re_sub_link_piece[OF p] ih by simp
  then show ?case
    by (simp add: resolve_links_for_html_def text_with_anchors_def seg anchor_or_span_def link_repl_def)
qed

theorem resolve_links_every_occurrence_witness:
  \<open>resolve_links_for_html ''see [[Foo]] and [[Bar]]'' [(''Foo'', \<lparr>pi_uuid = ''u1'', pi_title = ''Foo'', pi_has_public_children = False\<rparr>)]
    = ''see <a href="foo.html">Foo</a> and <span class="non-public-link">Bar</span>''\<close>
proof -
  have "sanitize_filename ''Foo'' = ''foo''"
    by (simp add: sanitize_filename_def lower_def lower_char_def is_safe_char_def
        char_classes char_of_eq_iff)
  then show ?thesis
    using resolve_links_every_occurrence[of "[(''see '', ''Foo''), ('' and '', ''Bar'')]" "[]"
      "[(''Foo'', \<lparr>pi_uuid = ''u1'', pi_title = ''Foo'', pi_has_public_children = False\<rparr>)]"]
    by (simp add: text_with_links_def text_with_anchors_def anchor_or_span_def)
qed

subsection \<open>The public page set\<close>

lemma dropWhile_hd_id: "xs = [] \<or> \<not> P (hd xs) \<Longrightarrow> dropWhile P xs = xs"
  by (cases xs) auto

lemma strip_strip: "strip (strip s) = strip s"
proof -
  define t where "t = dropWhile is_space s"
  define u where "u = rev (dropWhile is_space (rev t))"
  have t: "t = [] \<or> \<not> is_space (hd t)"
    unfolding t_def by (metis hd_dropWhile)
  have tu: "t = u @ rev (takeWhile is_space (rev t))"
    unfolding u_def by (metis rev_append rev_rev_ident takeWhile_dropWhile_id)
  have u_last: "rev u = [] \<or> \<not> is_space (hd (rev u))"
    unfolding u_def by (metis hd_dropWhile rev_rev_ident)
  have "u = [] \<or> \<not> is_space (hd u)"
  proof (cases u)
    case Nil
    then show ?thesis by simp
  next
    case (Cons a w)
    then have "hd t = a" using tu by (metis hd_append2 list.sel(1) list.simps(3))
    moreover have "t \<noteq> []" using tu Cons by auto
    ultimately show ?thesis using t Cons by simp
  qed
  then have "dropWhile is_space u = u" by (rule dropWhile_hd_id)
  moreover have "dropWhile is_space (rev u) = rev u" using u_last by (rule dropWhile_hd_id)
  ultimately show ?thesis by (simp add: strip_def t_def u_def)
qed

lemma page_title_strip: "strip (page_title p) = page_title p"
  by (simp add: page_title_def strip_strip)

lemma dict_set_keys: "fst ` set (dict_set k v d) = insert k (fst ` set d)"
proof (induction d)
  case Nil
  then show ?case by simp
next
  case (Cons kv d)
  obtain k' v' where kv: "kv = (k', v')" by (cases kv)
  show ?case
  proof (cases "k = k'")
    case True
    then show ?thesis by (simp add: kv)
  next
    case False
    then show ?thesis using Cons by (simp add: kv insert_commute)
  qed
qed

lemma dict_set_distinct: "distinct (map fst d) \<Longrightarrow> distinct (map fst (dict_set k v d))"
proof (induction d)
  case Nil
  then show ?case by simp
next
  case (Cons kv d)
  obtain k' v' where kv: "kv = (k', v')" by (cases kv)
  have "k' \<notin> fst ` set (dict_set k v d)" if "k \<noteq> k'"
    using Cons.prems that by (simp add: dict_set_keys kv)
  then show ?case using Cons by (auto simp: kv)
qed

lemma add_page_inv: "pages_inv st \<Longrightarrow> pages_inv (add_page p st)"
  by (auto simp: pages_inv_def add_page_def Let_def dict_set_keys dict_set_distinct
      split: option.splits)

lemma add_page_mono: "snd st \<subseteq> snd (add_page p st)"
  by (auto simp: add_page_def Let_def split: option.splits)

lemma add_page_member:
  "p_uuid p = Some u \<Longrightarrow> u \<noteq> [] \<Longrightarrow> page_title p \<noteq> [] \<Longrightarrow> page_title p \<in> snd (add_page p st)"
  by (auto simp: add_page_def Let_def)

lemma add_pages_inv: "pages_inv st \<Longrightarrow> pages_inv (add_pages ps st)"
  by (induction ps arbitrary: st) (simp_all add: add_page_inv)

lemma add_pages_mono: "snd st \<subseteq> snd (add_pages ps st)"
proof (induction ps arbitrary: st)
  case Nil
  then show ?case by simp
next
  case (Cons p ps)
  have "snd st \<subseteq> snd (add_page p st)" by (rule add_page_mono)
  also have "\<dots> \<subseteq> snd (add_pages ps (add_page p st))" by (rule Cons.IH)
  finally show ?case by simp
qed

lemma add_pages_member:
  "q \<in> set ps \<Longrightarrow> p_uuid q = Some u \<Longrightarrow> u \<noteq> [] \<Longrightarrow> page_title q \<noteq> []
   \<Longrightarrow> page_title q \<in> snd (add_pages ps st)"
proof (induction ps arbitrary: st)
  case Nil
  then show ?case by simp
next
  case (Cons p ps)
  show ?case
  proof (cases "q = p")
    case True
    then have "page_title q \<in> snd (add_page p st)"
      using Cons.prems add_page_member by blast
    then show ?thesis using add_pages_mono[of "add_page p st" ps] by auto
  next
    case False
    then show ?thesis using Cons by simp
  qed
qed

lemma first_pass_step: "first_pass a (p # ps) st = first_pass a ps (pass_step a p st)"
  by (simp add: pass_step_def)

lemma pass_step_inv: "pages_inv st \<Longrightarrow> pages_inv (pass_step a p st)"
  by (simp add: pass_step_def add_pages_inv add_page_inv)

lemma pass_step_mono: "snd st \<subseteq> snd (pass_step a p st)"
  using add_page_mono[of st p] add_pages_mono[of "add_page p st"]
  by (auto simp: pass_step_def)

lemma first_pass_inv: "pages_inv st \<Longrightarrow> pages_inv (first_pass a ps st)"
  by (induction ps arbitrary: st) (simp_all add: pass_step_inv first_pass_step del: first_pass.simps(2))

lemma first_pass_mono: "snd st \<subseteq> snd (first_pass a ps st)"
proof (induction ps arbitrary: st)
  case Nil
  then show ?case by simp
next
  case (Cons p ps)
  have "snd st \<subseteq> snd (pass_step a p st)" by (rule pass_step_mono)
  also have "\<dots> \<subseteq> snd (first_pass a ps (pass_step a p st))" by (rule Cons.IH)
  finally show ?case unfolding first_pass_step .
qed

lemma first_pass_children:
  assumes "p \<in> set ps" "is_public_children p"
    "q \<in> set (get_nested_pages a (page_title p))" "p_uuid q = Some u" "u \<noteq> []" "page_title q \<noteq> []"
  shows "page_title q \<in> snd (first_pass a ps st)"
  using assms(1)
proof (induction ps arbitrary: st)
  case Nil
  then show ?case by simp
next
  case (Cons r ps)
  show ?case
  proof (cases "p = r")
    case True
    have pub: "is_page_public r"
      using assms(2) True by (simp add: is_page_public_def is_public_children_def)
    have "page_title q \<in> snd (pass_step a r st)"
      using add_pages_member[OF assms(3-6)] pub assms(2) True by (simp add: pass_step_def)
    then show ?thesis unfolding first_pass_step using first_pass_mono by blast
  next
    case False
    then show ?thesis unfolding first_pass_step using Cons by simp
  qed
qed

text \<open>
  C2, as amended. The titles of the mapping \<^verbatim>\<open>get_public_pages\<close> returns are pairwise
  distinct, and for every page whose \<^verbatim>\<open>public\<close> property is \<^verbatim>\<open>"children"\<close>, every page that
  has a non-empty identifier and whose trimmed title starts with that page's trimmed title
  followed by a slash is a key of the mapping, whether or not it is marked public itself.
\<close>

theorem get_public_pages_children:
  "distinct (map fst (get_public_pages (Some pages)))
   \<and> (\<forall>p \<in> set pages. \<forall>q \<in> set pages.
        is_public_children p \<and> startswith (page_title q) (page_title p @ ''/'')
        \<and> (\<exists>u. p_uuid q = Some u \<and> u \<noteq> [])
        \<longrightarrow> page_title q \<in> fst ` set (get_public_pages (Some pages)))"
proof (cases "pages = []")
  case True
  then show ?thesis by (simp add: get_public_pages_def)
next
  case False
  have inv0: "pages_inv ([], {})" by (simp add: pages_inv_def)
  have inv: "pages_inv (first_pass (Some pages) pages ([], {}))"
    using inv0 by (rule first_pass_inv)
  have res: "get_public_pages (Some pages) = fst (first_pass (Some pages) pages ([], {}))"
    using False by (simp add: get_public_pages_def)
  have "page_title q \<in> fst ` set (get_public_pages (Some pages))"
    if "p \<in> set pages" "q \<in> set pages" "is_public_children p"
      "startswith (page_title q) (page_title p @ ''/'')" "p_uuid q = Some u" "u \<noteq> []" for p q u
  proof -
    have "q \<in> set (get_nested_pages (Some pages) (page_title p))"
      using that False by (simp add: get_nested_pages_def page_title_strip)
    moreover have "page_title q \<noteq> []"
      using that(4) by (auto simp: startswith_def)
    ultimately have "page_title q \<in> snd (first_pass (Some pages) pages ([], {}))"
      using first_pass_children that by blast
    then show ?thesis using inv res by (simp add: pages_inv_def)
  qed
  then show ?thesis using inv res by (auto simp: pages_inv_def)
qed

lemma strip_Trip: "strip ''Trip'' = ''Trip''" "strip ''Trip/Day1'' = ''Trip/Day1''"
  by (simp_all add: strip_def is_space_def)

text \<open>
  C2 as stated does not hold: \<^verbatim>\<open>add_page\<close> skips a page without an identifier
  (\<^verbatim>\<open>if uuid and title and title not in processed_pages\<close>), so such a descendant of a
  page marked \<^verbatim>\<open>public:: children\<close> is not a member.
\<close>

theorem get_public_pages_children_counterexample:
  "is_public_children trip_page
   \<and> startswith (page_title day_page) (page_title trip_page @ ''/'')
   \<and> page_title day_page \<notin> fst ` set (get_public_pages (Some [trip_page, day_page]))"
  by (simp add: get_public_pages_def get_nested_pages_def add_page_def
      is_page_public_def is_public_children_def page_title_def startswith_def
      trip_page_def day_page_def strip_Trip Let_def)

theorem get_public_pages_children_witness:
  "is_public_children trip_page
   \<and> startswith (page_title day_page_with_id) (page_title trip_page @ ''/'')
   \<and> page_title day_page_with_id \<in> fst ` set (get_public_pages (Some [trip_page, day_page_with_id]))
   \<and> distinct (map fst (get_public_pages (Some [trip_page, day_page_with_id])))"
proof -
  have a: "is_public_children trip_page"
    by (simp add: is_public_children_def trip_page_def)
  have b: "startswith (page_title day_page_with_id) (page_title trip_page @ ''/'')"
    by (simp add: page_title_def startswith_def trip_page_def day_page_def
        day_page_with_id_def strip_Trip)
  have c: "\<exists>u. p_uuid day_page_with_id = Some u \<and> u \<noteq> []"
    by (simp add: day_page_with_id_def)
  show ?thesis
    using get_public_pages_children[of "[trip_page, day_page_with_id]"] a b c by simp
qed

subsection \<open>Evaluation\<close>


lemmas strdefs = strip_def is_space_def startswith_def nl_def char_classes is_safe_char_def

subsection \<open>Embed resolution\<close>

lemma walk_Inl:
  "resolve_walk env pp (Inl a) st =
     (if length (fst st) \<le> a then Some (Inr st)
      else if has_id (fst st ! a) \<and> the (hb_uuid (fst st ! a)) \<in> snd st then Some (Inr st)
      else (case new_content env pp (hb_content (fst st ! a)) (visit (fst st ! a) (snd st)) of
              Inl e \<Rightarrow> Some (Inl e)
            | Inr c \<Rightarrow>
                (case hb_children (fst st ! a) of
                   None \<Rightarrow>
                     Some (Inr ((fst st)[a := (fst st ! a)\<lparr>hb_content := c\<rparr>],
                                visit (fst st ! a) (snd st)))
                 | Some children \<Rightarrow>
                     resolve_walk env pp (Inr children)
                       ((fst st)[a := (fst st ! a)\<lparr>hb_content := c\<rparr>],
                        visit (fst st ! a) (snd st)))))"
  by (subst resolve_walk.simps) simp

lemma new_content_raises: "new_content env pp content processed = Inl NameError"
  by (simp add: new_content_def resolve_embeds_def)

text \<open>
  C9. \<^verbatim>\<open>resolve_embeds_in_block\<close> comes to an end on every store, for every block of it,
  every visited set and every environment, cyclic children lists and blocks without an
  identifier included. A block whose identifier is in the visited set is returned at once
  with the store and the visited set as they were. Any other block reaches the call of
  \<^verbatim>\<open>resolve_embeds\<close>, a name the source file binds nowhere, and the function raises
  \<^verbatim>\<open>NameError\<close> before it changes the content or goes to a child: the recursion is never
  deeper than the first call.
\<close>

theorem resolve_embeds_in_block_terminates:
  "resolve_embeds_in_block env public_pages a store processed =
     Some (if length store \<le> a
              \<or> (has_id (store ! a)
                  \<and> the (hb_uuid (store ! a)) \<in> (case processed of None \<Rightarrow> {} | Some s \<Rightarrow> s))
           then Inr (store, case processed of None \<Rightarrow> {} | Some s \<Rightarrow> s)
           else Inl NameError)"
  by (simp add: resolve_embeds_in_block_def walk_Inl new_content_raises)

theorem resolve_embeds_in_block_terminates_witness:
  "resolve_embeds_in_block env0 [] 0 self_loop_store None = Some (Inl NameError)
   \<and> resolve_embeds_in_block env0 [] 0 cycle_store None = Some (Inl NameError)
   \<and> resolve_embeds_in_block env0 [] 0 cycle_store (Some {''b1''})
       = Some (Inr (cycle_store, {''b1''}))"
  using resolve_embeds_in_block_terminates[of env0 "[]" 0 self_loop_store None]
    resolve_embeds_in_block_terminates[of env0 "[]" 0 cycle_store None]
    resolve_embeds_in_block_terminates[of env0 "[]" 0 cycle_store "Some {''b1''}"]
  by (simp add: self_loop_store_def cycle_store_def has_id_def)

subsection \<open>Blocks without text, and task markers\<close>

lemmas eval_defs =
  strip_def is_space_def startswith_def nl_def char_classes is_safe_char_def
  preprocess_markdown_def clean_logseq_metadata_def format_properties_def
  prop_match_def flush_properties_def wrap_line_def tag_match_def blockref_match_def
  task_checkboxes_def sub_line_start_def sub_text_start_def
  id_match_def uuid_match_def public_match_def is_hex_def is_hexdash_def
  resolve_links_for_html_def link_match_def process_image_links_def
  md_image_match_def html_image_match_def

lemma preprocess_empty: "preprocess_markdown env [] = []"
  by (simp add: preprocess_markdown_def)

lemma empty_content_html:
  "process_image_links env (resolve_links_for_html (preprocess_markdown env []) pp) = Inr []"
  by (simp add: preprocess_empty resolve_links_for_html_def process_image_links_def)

text \<open>
  C10. \<^verbatim>\<open>process_block\<close> returns the empty string for a block whose text is empty or
  whitespace, whatever its children are: the subtree is left out. \<^verbatim>\<open>block_tree_to_html\<close>
  returns the empty string at once only when the block has no children either; for an
  empty text with children it renders the children (those that are not false) one level
  deeper and returns their list, or the exception rendering them raised.
\<close>

theorem empty_text_block:
  "(strip content = [] \<longrightarrow> process_block env pp (Block content children) = Inr [])
   \<and> (strip content = [] \<and> children = []
        \<longrightarrow> block_tree_to_html env pp (Block content children) indent = Inr [])
   \<and> (strip content = [] \<and> children \<noteq> []
        \<longrightarrow> block_tree_to_html env pp (Block content children) indent =
            (case children_to_html env pp children (Suc indent) of
               Inl e \<Rightarrow> Inl e
             | Inr child_htmls \<Rightarrow>
                 Inr ((if indent > 0 then ''<li>'' else []) @
                      (if join [nl] child_htmls \<noteq> []
                       then [nl] @ ''<ul>'' @ [nl] @ join [nl] child_htmls @ [nl] @ ''</ul>''
                       else []) @
                      (if indent > 0 then ''</li>'' else []))))"
  by (auto simp: empty_content_html split: sum.splits)

theorem empty_text_block_witness:
  "process_block env0 [] untitled_parent = Inr []
   \<and> block_tree_to_html env0 [] untitled_parent 0
       = Inr ([nl] @ ''<ul>'' @ [nl] @ ''<li><p>child</p></li>'' @ [nl] @ ''</ul>'')"
proof -
  have s: "strip ''  '' = []" by (simp add: strip_def is_space_def)
  have c: "children_to_html env0 [] [Block ''child'' []] (Suc 0) = Inr [''<li><p>child</p></li>'']"
    by (simp add: eval_defs env0_def)
  show ?thesis
    using empty_text_block[of "''  ''" env0 "[]" "[Block ''child'' []]" 0] s c
    by (simp add: untitled_parent_def)
qed

text \<open>
  C6. The claim fails on \<^verbatim>\<open>process_block\<close>: its five substitutions carry no
  \<^verbatim>\<open>re.MULTILINE\<close>, so only a marker at the start of the block's text is rewritten, and a
  marker at the start of a later line reaches the output as it is. \<^verbatim>\<open>preprocess_markdown\<close>,
  with the flag, rewrites the same marker.
\<close>

theorem task_marker_second_line:
  "process_block env0 [] note_block
     = Inr (''<div class='' @ [CHR 0x27] @ ''block'' @ [CHR 0x27] @ ''><p>note</p>'' @ [nl] @
            ''<p>TODO buy milk</p></div>'')
   \<and> preprocess_markdown env0 (''note'' @ [nl] @ ''TODO buy milk'')
     = ''<p>note</p>'' @ [nl] @ ''<p>- [ ] buy milk</p>''"
  by (simp add: note_block_def eval_defs env0_def task_glyphs_def process_line_def
      span_match_def url_match_def code_match_def backtick_def)

subsection \<open>The asset resolver\<close>

lemma find_SomeD: "find P xs = Some x \<Longrightarrow> P x \<and> x \<in> set xs"
  by (induction xs) (auto split: if_splits)

lemma exact_match_None: "exact_match env location filename = None \<longleftrightarrow> \<not> has_exact env location filename"
  by (auto simp: exact_match_def has_exact_def find_None_iff)

lemma exact_match_Some:
  "has_exact env location filename \<Longrightarrow>
   \<exists>v \<in> set (variations filename). exact_match env location filename = Some v
      \<and> e_exists env (path_join location v)"
proof -
  assume "has_exact env location filename"
  then obtain v where "exact_match env location filename = Some v"
    using exact_match_None[of env location filename] by (cases "exact_match env location filename") auto
  then show ?thesis using find_SomeD[of _ "variations filename" v] by (auto simp: exact_match_def)
qed

lemma partial_match_None: "partial_match files filename = None \<longleftrightarrow> \<not> has_partial files filename"
  by (auto simp: partial_match_def has_partial_def find_None_iff list_ex_iff)

lemma partial_match_Some:
  "has_partial files filename \<Longrightarrow>
   \<exists>file \<in> set files. partial_match files filename = Some file
      \<and> (\<exists>bv \<in> set (base_variations filename). contains (lower bv) (lower file))"
proof -
  assume "has_partial files filename"
  then obtain entry where "partial_match files filename = Some entry"
    using partial_match_None[of files filename] by (cases "partial_match files filename") auto
  then show ?thesis
    using find_SomeD[of _ files entry] by (auto simp: partial_match_def list_ex_iff)
qed

lemma find_in_skip:
  "\<forall>l \<in> set earlier. nothing_at env filename l \<Longrightarrow>
   find_in env filename (earlier @ rest) = find_in env filename rest"
proof (induction earlier)
  case Nil
  then show ?case by simp
next
  case (Cons l earlier)
  have "nothing_at env filename l" using Cons.prems by simp
  then have "find_in env filename (l # earlier @ rest) = find_in env filename (earlier @ rest)"
    by (auto simp: nothing_at_def exact_match_None[symmetric] partial_match_None[symmetric])
  then show ?case using Cons by simp
qed

lemma find_in_nothing:
  "\<forall>l \<in> set locs. nothing_at env filename l \<Longrightarrow> find_in env filename locs = Inr None"
  using find_in_skip[of locs env filename "[]"] by simp

text \<open>
  C4, as amended. The layers are per directory. Let a candidate location exist, and let
  every candidate before it hold nothing for the name. If the location holds an exact
  variant, \<^verbatim>\<open>find_asset\<close> returns an exact variant in it, whatever substring matches it or
  later candidates hold. Only if it holds no exact variant does a file of its listing that
  contains a base variant, case-insensitively, become the result.
\<close>

theorem find_asset_layers:
  assumes "possible_locations env = earlier @ loc # later"
    and "\<forall>l \<in> set earlier. nothing_at env filename l"
    and "e_exists env (expanduser env loc)"
  shows "(has_exact env (expanduser env loc) filename \<longrightarrow>
            (\<exists>variant \<in> set (variations filename).
                e_exists env (path_join (expanduser env loc) variant)
                \<and> find_asset env filename = Inr (Some (path_join (expanduser env loc) variant))))
       \<and> (\<not> has_exact env (expanduser env loc) filename
            \<and> e_listdir env (expanduser env loc) = Some files \<and> has_partial files filename \<longrightarrow>
            (\<exists>file \<in> set files.
                (\<exists>bv \<in> set (base_variations filename). contains (lower bv) (lower file))
                \<and> find_asset env filename = Inr (Some (path_join (expanduser env loc) file))))"
proof -
  have skip: "find_asset env filename = find_in env filename (loc # later)"
    using assms(1,2) by (simp add: find_asset_def find_in_skip)
  have a: "\<exists>variant \<in> set (variations filename).
        e_exists env (path_join (expanduser env loc) variant)
        \<and> find_asset env filename = Inr (Some (path_join (expanduser env loc) variant))"
    if "has_exact env (expanduser env loc) filename"
    using exact_match_Some[OF that] assms(3) skip by auto
  have b: "\<exists>file \<in> set files.
        (\<exists>bv \<in> set (base_variations filename). contains (lower bv) (lower file))
        \<and> find_asset env filename = Inr (Some (path_join (expanduser env loc) file))"
    if "\<not> has_exact env (expanduser env loc) filename"
      "e_listdir env (expanduser env loc) = Some files" "has_partial files filename"
    using partial_match_Some[OF that(3)] that(1,2) assms(3) skip
    by (auto simp: exact_match_None[symmetric])
  show ?thesis using a b by blast
qed

lemmas asset_defs =
  find_asset_def possible_locations_def expanduser_def exact_match_def partial_match_def
  variations_def base_variations_def spellings_def dedup_def basename_def splitext_def
  path_join_def LOGSEQ_ASSETS_PATH_def lower_def lower_char_def char_classes char_of_eq_iff
  env0_def

text \<open>
  C4 as stated does not hold: the substring search runs inside the loop over the
  locations, right after the exact search in the same location, so a substring match in an
  earlier location wins over an exact match in a later one.
\<close>

theorem find_asset_layers_counterexample:
  "''assets'' \<in> set (possible_locations env_two_dirs)
   \<and> ''photo.png'' \<in> set (variations ''photo.png'')
   \<and> e_exists env_two_dirs (path_join ''assets'' ''photo.png'')
   \<and> find_asset env_two_dirs ''photo.png''
       = Inr (Some (LOGSEQ_ASSETS_PATH @ ''/photo_backup.png''))"
  by (simp add: asset_defs env_two_dirs_def)

theorem find_asset_layers_witness:
  "possible_locations env_local = [LOGSEQ_ASSETS_PATH] @ ''assets'' # drop 2 (possible_locations env_local)
   \<and> nothing_at env_local ''photo.png'' LOGSEQ_ASSETS_PATH
   \<and> e_exists env_local (expanduser env_local ''assets'')
   \<and> has_exact env_local (expanduser env_local ''assets'') ''photo.png''
   \<and> has_partial [''photo_old.png'', ''photo.png''] ''photo.png''
   \<and> find_asset env_local ''photo.png'' = Inr (Some ''assets/photo.png'')"
proof -
  have locs: "possible_locations env_local
      = [LOGSEQ_ASSETS_PATH] @ ''assets'' # drop 2 (possible_locations env_local)"
    by (simp add: possible_locations_def)
  have none: "\<forall>l \<in> set [LOGSEQ_ASSETS_PATH]. nothing_at env_local ''photo.png'' l"
    by (simp add: nothing_at_def env_local_def asset_defs)
  have ex: "e_exists env_local (expanduser env_local ''assets'')"
    by (simp add: env_local_def asset_defs)
  have var: "variations ''photo.png'' = [''photo.png'']"
    by (simp add: asset_defs)
  have exact: "has_exact env_local (expanduser env_local ''assets'') ''photo.png''"
    by (simp add: has_exact_def var) (simp add: env_local_def asset_defs)
  have part: "has_partial [''photo_old.png'', ''photo.png''] ''photo.png''"
    by (simp add: has_partial_def asset_defs)
  have e: "expanduser env_local ''assets'' = ''assets''"
    by (simp add: expanduser_def)
  have "find_asset env_local ''photo.png'' = Inr (Some ''assets/photo.png'')"
    using find_asset_layers[OF locs none ex, where files = "[]"] exact
    by (simp add: var e path_join_def)
  then show ?thesis using locs none ex exact part by simp
qed

subsection \<open>Missing assets\<close>

lemma re_sub_e_skip:
  assumes "\<And>suf. suf \<noteq> [] \<Longrightarrow> suffix suf pre \<Longrightarrow> m (suf @ rest) = None"
  shows "re_sub_e m f (pre @ rest) =
           (case re_sub_e m f rest of Inl e \<Rightarrow> Inl e | Inr t \<Rightarrow> Inr (pre @ t))"
  using assms
proof (induction pre)
  case Nil
  then show ?case by (simp split: sum.splits)
next
  case (Cons c pre)
  have "m (c # pre @ rest) = None"
    using Cons.prems[of "c # pre"] by simp
  moreover have "re_sub_e m f (pre @ rest) =
      (case re_sub_e m f rest of Inl e \<Rightarrow> Inl e | Inr t \<Rightarrow> Inr (pre @ t))"
    by (rule Cons.IH) (simp add: Cons.prems suffix_Cons)
  ultimately show ?case by (simp split: sum.splits)
qed

lemma re_sub_e_none:
  assumes "\<And>suf. suf \<noteq> [] \<Longrightarrow> suffix suf s \<Longrightarrow> m suf = None"
  shows "re_sub_e m f s = Inr s"
  using re_sub_e_skip[of s m "[]" f] assms by simp

lemma suffix_set: "suffix suf s \<Longrightarrow> c \<notin> set s \<Longrightarrow> c \<notin> set suf"
  by (auto simp: suffix_def)

lemma md_image_match_none:
  "suf \<noteq> [] \<Longrightarrow> CHR ''!'' \<notin> set suf \<Longrightarrow> md_image_match (suf @ rest) = None"
  by (cases suf) (auto simp: md_image_match_def)

lemma html_image_match_none:
  "suf \<noteq> [] \<Longrightarrow> CHR ''<'' \<notin> set suf \<Longrightarrow> html_image_match (suf @ rest) = None"
  by (cases suf) (auto simp: html_image_match_def)

lemma md_image_match_hit:
  assumes "CHR '']'' \<notin> set alt" "path \<noteq> []" "CHR '')'' \<notin> set path"
  shows "md_image_match (''!['' @ alt @ '']('' @ path @ '')'' @ post)
           = Some (path, length alt + length path + 5)"
proof -
  have a: "takeWhile (\<lambda>c. c \<noteq> CHR '']'') (alt @ '']('' @ path @ '')'' @ post) = alt"
    using assms(1) by (auto simp: takeWhile_append2 takeWhile_tail)
  have b: "takeWhile (\<lambda>c. c \<noteq> CHR '')'') (path @ '')'' @ post) = path"
    using assms(3) by (auto simp: takeWhile_append2 takeWhile_tail)
  show ?thesis using assms(2) a b by (simp add: md_image_match_def)
qed

lemma md_pass:
  assumes "CHR ''!'' \<notin> set pre" "CHR ''!'' \<notin> set post"
    "CHR '']'' \<notin> set alt" "path \<noteq> []" "CHR '')'' \<notin> set path"
    "f path = Inr r"
  shows "re_sub_e md_image_match f (pre @ ''!['' @ alt @ '']('' @ path @ '')'' @ post)
           = Inr (pre @ r @ post)"
proof -
  have post: "re_sub_e md_image_match f post = Inr post"
  proof (rule re_sub_e_none)
    fix suf assume "suf \<noteq> []" "suffix suf post"
    then show "md_image_match suf = None"
      using md_image_match_none[of suf "[]"] suffix_set[OF _ assms(2)] by simp
  qed
  have ref: "re_sub_e md_image_match f (''!['' @ alt @ '']('' @ path @ '')'' @ post) = Inr (r @ post)"
    using md_image_match_hit[OF assms(3,4,5), of post] assms(6) post by (simp add: drop_Cons')
  have "re_sub_e md_image_match f (pre @ (''!['' @ alt @ '']('' @ path @ '')'' @ post)) =
      (case re_sub_e md_image_match f (''!['' @ alt @ '']('' @ path @ '')'' @ post) of
         Inl e \<Rightarrow> Inl e | Inr t \<Rightarrow> Inr (pre @ t))"
  proof (rule re_sub_e_skip)
    fix suf assume "suf \<noteq> []" "suffix suf pre"
    then show "md_image_match (suf @ ''!['' @ alt @ '']('' @ path @ '')'' @ post) = None"
      using md_image_match_none suffix_set[OF _ assms(1)] by blast
  qed
  then show ?thesis using ref by simp
qed

lemma html_pass:
  assumes "CHR ''<'' \<notin> set s"
  shows "re_sub_e html_image_match f s = Inr s"
proof (rule re_sub_e_none)
  fix suf assume "suf \<noteq> []" "suffix suf s"
  then show "html_image_match suf = None"
    using html_image_match_none[of suf "[]"] suffix_set[OF _ assms] by simp
qed

text \<open>
  C7, as amended. Let no candidate location hold anything for the requested name (the
  path of the reference, unquoted and without \<^verbatim>\<open>../\<close> and a leading \<^verbatim>\<open>assets/\<close> or
  \<^verbatim>\<open>img/\<close>), every existing candidate being a directory that can be listed. Then
  \<^verbatim>\<open>find_asset\<close> returns \<^verbatim>\<open>None\<close>, the replacement of the reference is the text
  \<^verbatim>\<open>[Image not found: name]\<close>, and \<^verbatim>\<open>process_image_links\<close> on a text with one markdown
  image reference returns, without raising, the text with the placeholder in the place of
  the reference and no \<^verbatim>\<open><img>\<close> tag.
\<close>

theorem missing_asset_placeholder:
  assumes "\<forall>l \<in> set (possible_locations env). nothing_at env (clean_img_path env path) l"
    and "CHR '']'' \<notin> set alt" and "path \<noteq> []" and "CHR '')'' \<notin> set path"
    and "CHR ''!'' \<notin> set pre \<union> set post"
    and "CHR ''<'' \<notin> set pre \<union> set post \<union> set (clean_img_path env path)"
  shows "find_asset env (clean_img_path env path) = Inr None
       \<and> img_repl env path = Inr (''[Image not found: '' @ clean_img_path env path @ '']'')
       \<and> process_image_links env (pre @ ''!['' @ alt @ '']('' @ path @ '')'' @ post)
           = Inr (pre @ ''[Image not found: '' @ clean_img_path env path @ '']'' @ post)"
proof -
  have none: "find_asset env (clean_img_path env path) = Inr None"
    using assms(1) by (simp add: find_asset_def find_in_nothing)
  then have repl: "img_repl env path = Inr (''[Image not found: '' @ clean_img_path env path @ '']'')"
    by (simp add: img_repl_def not_found_text_def)
  have md: "re_sub_e md_image_match (img_repl env) (pre @ ''!['' @ alt @ '']('' @ path @ '')'' @ post)
      = Inr (pre @ (''[Image not found: '' @ clean_img_path env path @ '']'') @ post)"
    using assms(2-5) repl by (intro md_pass) auto
  have "CHR ''<'' \<notin> set (pre @ (''[Image not found: '' @ clean_img_path env path @ '']'') @ post)"
    using assms(6) by simp
  then have "re_sub_e html_image_match (img_repl env)
      (pre @ (''[Image not found: '' @ clean_img_path env path @ '']'') @ post)
      = Inr (pre @ (''[Image not found: '' @ clean_img_path env path @ '']'') @ post)"
    by (rule html_pass)
  then show ?thesis using none repl md by (simp add: process_image_links_def)
qed

lemmas image_defs =
  process_image_links_def md_image_match_def html_image_match_def img_repl_def
  clean_img_path_def dotdot_match_def not_found_text_def copy_asset_def is_asset_char_def
  ASSETS_DIR_def

theorem missing_asset_placeholder_witness:
  "list_all (nothing_at env_local ''map.png'') (possible_locations env_local)
   \<and> clean_img_path env_local ''../assets/map.png'' = ''map.png''
   \<and> find_asset env_local ''map.png'' = Inr None
   \<and> process_image_links env_local ''see ![the map](../assets/map.png).''
       = Inr ''see [Image not found: map.png].''"
proof -
  have c: "clean_img_path env_local ''../assets/map.png'' = ''map.png''"
    by (simp add: clean_img_path_def dotdot_match_def env_local_def env0_def)
  have n: "\<forall>l \<in> set (possible_locations env_local). nothing_at env_local ''map.png'' l"
    by (simp add: nothing_at_def has_exact_def has_partial_def env_local_def asset_defs)
  show ?thesis
    using missing_asset_placeholder[of env_local "''../assets/map.png''" "''the map''"
        "''see ''" "''.''"] c n
    by (simp add: list_all_iff)
qed

text \<open>
  C7 as stated does not hold: image-link processing can raise. When the only entry that
  matches is a directory, \<^verbatim>\<open>find_asset\<close> returns it and \<^verbatim>\<open>shutil.copy2\<close> in
  \<^verbatim>\<open>copy_asset\<close> raises; and when a candidate location exists but cannot be listed,
  \<^verbatim>\<open>os.listdir\<close> in \<^verbatim>\<open>find_asset\<close> raises although no file matches anywhere. Neither call
  is inside a \<^verbatim>\<open>try\<close>.
\<close>

theorem image_links_raise_counterexample:
  "process_image_links env_album ''![x](photo.png)'' = Inl OSError
   \<and> find_asset env_assets_file ''photo.png'' = Inl OSError
   \<and> process_image_links env_assets_file ''![x](photo.png)'' = Inl OSError"
  by (simp add: image_defs asset_defs env_album_def env_assets_file_def)

subsection \<open>The property formatter\<close>









end
